theory Spec2Isabelle
  imports Complex_Main "HOL-Library.Word" "HOL-Library.Multiset" "HOL-Library.AList"
begin

section \<open>Data model\<close>

text \<open>
  A \<open>std::chrono::system_clock::time_point\<close> is represented by its tick count, a signed
  64-bit number of microseconds since the epoch.  The code only copies and compares
  timestamps, so the count is an \<open>int\<close>; the two extreme values \<open>time_point::min()\<close> and
  \<open>time_point::max()\<close> are the bounds of the 64-bit range.  A \<open>double\<close> is only ever
  copied, never computed with, and is represented by its 64-bit pattern.
\<close>

type_synonym time_point = int
type_synonym double = "64 word"
type_synonym size_t = "64 word"

definition time_point_min :: time_point where
  "time_point_min = - (2 ^ 63)"

definition time_point_max :: time_point where
  "time_point_max = 2 ^ 63 - 1"

text \<open>\<open>struct TimeSeriesPoint\<close> of \<open>types.hpp\<close> (the field \<open>value\<close> is called \<open>val\<close>).\<close>

record TimeSeriesPoint =
  timestamp :: time_point
  val :: double
  symbol :: string

definition valid_point :: "TimeSeriesPoint \<Rightarrow> bool" where
  "valid_point p \<longleftrightarrow> time_point_min \<le> timestamp p \<and> timestamp p \<le> time_point_max"

text \<open>
  What ends a call without a result is a value of this type: an exception that leaves
  the function, or \<open>Deadlock\<close>, which is no exception: the thread waits for ever for a
  mutex that it owns itself, so the call neither returns nor throws, and no handler
  catches it.
\<close>

datatype error =
    RuntimeError string
  | InvalidArgument string
  | OutOfRange string
  | SystemError string
  | Deadlock

section \<open>Standard-library algorithms on point vectors\<close>

text \<open>
  Every call in the sources passes the comparator \<open>a.timestamp < b.timestamp\<close> (or
  \<open>a.timestamp == b.timestamp\<close> for \<open>std::unique\<close>), so the comparator is built in.

  \<open>std::lower_bound\<close> returns the furthermost position \<open>i\<close> such that every element
  before \<open>i\<close> compares less than the value; \<open>std::upper_bound\<close> the furthermost \<open>i\<close>
  such that the value compares less than no element before \<open>i\<close>.  Positions are
  offsets from the start of the searched range.
\<close>

definition lower_bound :: "TimeSeriesPoint list \<Rightarrow> time_point \<Rightarrow> nat" where
  "lower_bound v t = length (takeWhile (\<lambda>a. timestamp a < t) v)"

definition upper_bound :: "TimeSeriesPoint list \<Rightarrow> time_point \<Rightarrow> nat" where
  "upper_bound v t = length (takeWhile (\<lambda>a. \<not> t < timestamp a) v)"

text \<open>
  \<open>std::merge\<close>: takes from the second range only when its head is strictly less, so
  on equal timestamps the element of the first range comes first.
\<close>

fun std_merge :: "TimeSeriesPoint list \<Rightarrow> TimeSeriesPoint list \<Rightarrow> TimeSeriesPoint list" where
  "std_merge [] ys = ys"
| "std_merge xs [] = xs"
| "std_merge (x # xs) (y # ys) =
     (if timestamp y < timestamp x then y # std_merge (x # xs) ys
      else x # std_merge xs (y # ys))"

text \<open>
  \<open>std::unique\<close> followed by \<open>erase\<close>: of every run of neighbours with the same
  timestamp only the first element stays.
\<close>

fun std_unique :: "TimeSeriesPoint list \<Rightarrow> TimeSeriesPoint list" where
  "std_unique [] = []"
| "std_unique [x] = [x]"
| "std_unique (x # y # xs) =
     (if timestamp x = timestamp y then std_unique (x # xs) else x # std_unique (y # xs))"

text \<open>
  \<open>std::sort\<close> is not stable: the standard promises a permutation of the input that
  is ordered by the comparator and nothing about the order of elements with the same
  timestamp.  The sort is therefore an argument of every function that calls it, and
  \<open>is_std_sort\<close> is all that is known about it.  \<open>stable_sort_points\<close> is one such sort.
\<close>

type_synonym sorter = "TimeSeriesPoint list \<Rightarrow> TimeSeriesPoint list"

definition is_std_sort :: "sorter \<Rightarrow> bool" where
  "is_std_sort srt \<longleftrightarrow>
     (\<forall>xs. mset (srt xs) = mset xs \<and> sorted (map timestamp (srt xs)))"

definition stable_sort_points :: sorter where
  "stable_sort_points = sort_key timestamp"

text \<open>
  \<open>grouped_points[point.symbol].push_back(point)\<close> over a batch: an
  \<open>unordered_map\<close> from symbol to vector, as an association list in order of first
  appearance (the iteration order of the \<open>unordered_map\<close> is not specified).
\<close>

definition lookup_default :: "'v \<Rightarrow> ('k \<times> 'v) list \<Rightarrow> 'k \<Rightarrow> 'v" where
  "lookup_default d al k = (case map_of al k of None \<Rightarrow> d | Some v \<Rightarrow> v)"

definition group_step ::
  "TimeSeriesPoint \<Rightarrow> (string \<times> TimeSeriesPoint list) list \<Rightarrow> (string \<times> TimeSeriesPoint list) list" where
  "group_step p g = AList.update (symbol p) (lookup_default [] g (symbol p) @ [p]) g"

definition group_by_symbol ::
  "TimeSeriesPoint list \<Rightarrow> (string \<times> TimeSeriesPoint list) list" where
  "group_by_symbol ps = fold group_step ps []"

section \<open>The memory buffer (\<open>memory_layer.cpp\<close>)\<close>

record SymbolData =
  points :: "TimeSeriesPoint list"
  sd_total_points :: size_t

record MemoryLayer =
  symbol_data :: "(string \<times> SymbolData) list"
  cache_size_mb :: size_t
  ml_total_points :: size_t

definition new_SymbolData :: SymbolData where
  "new_SymbolData = \<lparr>points = [], sd_total_points = 0\<rparr>"

definition new_MemoryLayer :: "size_t \<Rightarrow> MemoryLayer" where
  "new_MemoryLayer mb = \<lparr>symbol_data = [], cache_size_mb = mb, ml_total_points = 0\<rparr>"

text \<open>
  \<open>get_or_create_symbol_data\<close> returns a pointer into the map; here it returns the
  entry together with the map that now holds it, and \<open>store_symbol_data\<close> is the write
  through that pointer.
\<close>

definition get_or_create_symbol_data :: "string \<Rightarrow> MemoryLayer \<Rightarrow> SymbolData \<times> MemoryLayer" where
  "get_or_create_symbol_data sy m =
     (case map_of (symbol_data m) sy of
        Some sd \<Rightarrow> (sd, m)
      | None \<Rightarrow> (new_SymbolData, m\<lparr>symbol_data := symbol_data m @ [(sy, new_SymbolData)]\<rparr>))"

definition store_symbol_data :: "string \<Rightarrow> SymbolData \<Rightarrow> MemoryLayer \<Rightarrow> MemoryLayer" where
  "store_symbol_data sy sd m = m\<lparr>symbol_data := AList.update sy sd (symbol_data m)\<rparr>"

definition MemoryLayer_insert :: "TimeSeriesPoint \<Rightarrow> MemoryLayer \<Rightarrow> bool \<times> MemoryLayer" where
  "MemoryLayer_insert point m0 =
     (let (sd, m) = get_or_create_symbol_data (symbol point) m0;
          it = lower_bound (points sd) (timestamp point)
      in if it < length (points sd) \<and> timestamp (points sd ! it) = timestamp point
         then (False, m)
         else (True,
               (store_symbol_data (symbol point)
                  (sd\<lparr>points := take it (points sd) @ [point] @ drop it (points sd),
                      sd_total_points := sd_total_points sd + 1\<rparr>) m)
               \<lparr>ml_total_points := ml_total_points m + 1\<rparr>))"

text \<open>The body of the loop of \<open>insert_batch\<close> over the groups.\<close>

definition insert_group ::
  "sorter \<Rightarrow> string \<times> TimeSeriesPoint list \<Rightarrow> MemoryLayer \<Rightarrow> MemoryLayer" where
  "insert_group srt grp m0 =
     (let (sd, m) = get_or_create_symbol_data (fst grp) m0;
          sorted_points = srt (snd grp);
          merged = std_unique (std_merge (points sd) sorted_points);
          new_points = (of_nat (length merged) :: size_t) - of_nat (length (points sd))
      in (store_symbol_data (fst grp)
            (sd\<lparr>points := merged, sd_total_points := sd_total_points sd + new_points\<rparr>) m)
         \<lparr>ml_total_points := ml_total_points m + new_points\<rparr>)"

definition MemoryLayer_insert_batch ::
  "sorter \<Rightarrow> TimeSeriesPoint list \<Rightarrow> MemoryLayer \<Rightarrow> bool \<times> MemoryLayer" where
  "MemoryLayer_insert_batch srt ps m =
     (if ps = [] then (True, m)
      else (True, fold (insert_group srt) (group_by_symbol ps) m))"

definition MemoryLayer_get_latest :: "MemoryLayer \<Rightarrow> string \<Rightarrow> TimeSeriesPoint option" where
  "MemoryLayer_get_latest m sy =
     (case map_of (symbol_data m) sy of
        None \<Rightarrow> None
      | Some sd \<Rightarrow> if points sd = [] then None else Some (last (points sd)))"

definition MemoryLayer_get_range ::
  "MemoryLayer \<Rightarrow> string \<Rightarrow> time_point \<Rightarrow> time_point \<Rightarrow> TimeSeriesPoint list" where
  "MemoryLayer_get_range m sy start end' =
     (case map_of (symbol_data m) sy of
        None \<Rightarrow> []
      | Some sd \<Rightarrow>
          (let start_it = lower_bound (points sd) start;
               end_it = start_it + upper_bound (drop start_it (points sd)) end'
           in take (end_it - start_it) (drop start_it (points sd))))"

definition MemoryLayer_clear_cache :: "MemoryLayer \<Rightarrow> MemoryLayer" where
  "MemoryLayer_clear_cache m =
     m\<lparr>symbol_data :=
          map (\<lambda>(sy, sd). (sy, sd\<lparr>points := [], sd_total_points := 0\<rparr>)) (symbol_data m),
       ml_total_points := 0\<rparr>"

definition MemoryLayer_cache_size :: "MemoryLayer \<Rightarrow> size_t" where
  "MemoryLayer_cache_size m = ml_total_points m"

definition MemoryLayer_get_symbols :: "MemoryLayer \<Rightarrow> string list" where
  "MemoryLayer_get_symbols m = map fst (symbol_data m)"

text \<open>What the buffer holds for a symbol, and invariant M1 of the data model.\<close>

definition points_of :: "MemoryLayer \<Rightarrow> string \<Rightarrow> TimeSeriesPoint list" where
  "points_of m sy = (case map_of (symbol_data m) sy of None \<Rightarrow> [] | Some sd \<Rightarrow> points sd)"

definition strictly_increasing :: "TimeSeriesPoint list \<Rightarrow> bool" where
  "strictly_increasing ps \<longleftrightarrow> sorted_wrt (<) (map timestamp ps)"

definition M1 :: "MemoryLayer \<Rightarrow> bool" where
  "M1 m \<longleftrightarrow> (\<forall>e \<in> set (symbol_data m). strictly_increasing (points (snd e)))"

text \<open>
  A buffer is empty when no symbol holds a point (\<open>clear_cache\<close> keeps the symbols), and
  valid when every timestamp it holds is a 64-bit value.
\<close>

definition buffer_empty :: "MemoryLayer \<Rightarrow> bool" where
  "buffer_empty m \<longleftrightarrow> (\<forall>sy \<in> set (MemoryLayer_get_symbols m). points_of m sy = [])"

definition valid_memory :: "MemoryLayer \<Rightarrow> bool" where
  "valid_memory m \<longleftrightarrow>
     (\<forall>sy \<in> set (MemoryLayer_get_symbols m). \<forall>p \<in> set (points_of m sy). valid_point p)"

text \<open>Sequences of inserts on a buffer.\<close>

datatype mem_op = Insert TimeSeriesPoint | InsertBatch "TimeSeriesPoint list"

fun apply_mem_op :: "sorter \<Rightarrow> mem_op \<Rightarrow> MemoryLayer \<Rightarrow> MemoryLayer" where
  "apply_mem_op srt (Insert p) m = snd (MemoryLayer_insert p m)"
| "apply_mem_op srt (InsertBatch ps) m = snd (MemoryLayer_insert_batch srt ps m)"

definition run_mem_ops :: "sorter \<Rightarrow> mem_op list \<Rightarrow> MemoryLayer \<Rightarrow> MemoryLayer" where
  "run_mem_ops srt ops m = fold (apply_mem_op srt) ops m"

section \<open>The platform: standard library, codec and file system\<close>

text \<open>
  The segment store calls code that is not part of the repository: \<open>std::sort\<close>, the
  external codec \<open>compress_time_series\<close> / \<open>decompress_time_series\<close> on
  \<open>TimePoint\<close>s (\<open>rust_bindings.hpp\<close>), the byte image that \<open>memcpy\<close> takes of a
  vector of points and its \<open>reinterpret_cast\<close> back, the file system, where opening
  a file for writing can fail, and \<open>std::shared_mutex\<close>, which may or may not detect
  that a thread locks a mutex that it owns.  They are the fields of a \<open>platform\<close>;
  \<open>'b\<close> is the type of byte sequences.  \<open>platform_ok\<close> states what the code expects of
  them: a sort that sorts, and decoders that give back what was encoded.
\<close>

type_synonym TimePoint = "int \<times> double"

text \<open>
  \<open>struct SegmentInfo\<close>, and a segment file: the image of the \<open>SegmentInfo\<close> that
  \<open>write_segment\<close> puts in front, and the payload behind it (the size field between
  them is the payload's length).
\<close>

record SegmentInfo =
  start_time :: time_point
  end_time :: time_point
  num_points :: nat
  file_path :: string
  compressed :: bool

record 'b segment_file =
  header :: SegmentInfo
  payload :: 'b

record 'b platform =
  std_sort :: sorter
  compress_time_series :: "TimePoint list \<Rightarrow> 'b"
  decompress_time_series :: "'b \<Rightarrow> TimePoint list"
  memcpy_points :: "TimeSeriesPoint list \<Rightarrow> 'b"
  reinterpret_points :: "'b \<Rightarrow> nat \<Rightarrow> TimeSeriesPoint list"
  can_create :: "string \<Rightarrow> bool"
  leading_uint64 :: "'b segment_file \<Rightarrow> nat"
  file_size :: "'b segment_file \<Rightarrow> size_t"
  detects_deadlock :: bool

definition platform_ok :: "'b platform \<Rightarrow> bool" where
  "platform_ok P \<longleftrightarrow>
     is_std_sort (std_sort P) \<and>
     (\<forall>tps. decompress_time_series P (compress_time_series P tps) = tps) \<and>
     (\<forall>ps. reinterpret_points P (memcpy_points P ps) (length ps) = ps)"

text \<open>\<open>std::to_string\<close> of a \<open>size_t\<close>: the decimal digits.\<close>

definition digit_char :: "nat \<Rightarrow> char" where
  "digit_char n = ''0123456789'' ! n"

function to_string :: "nat \<Rightarrow> string" where
  "to_string n = (if n < 10 then [digit_char n] else to_string (n div 10) @ [digit_char (n mod 10)])"
  by pat_completeness auto
termination
  by (relation "measure id") auto

declare to_string.simps [simp del]

text \<open>
  \<open>std::stoll\<close> in base 10: leading white space is skipped, then an optional sign and
  the longest run of digits are read, and what follows is ignored.  Without a digit it
  throws \<open>std::invalid_argument\<close>, and \<open>std::out_of_range\<close> when the number does not
  fit 64 bits.
\<close>

definition isspace :: "char \<Rightarrow> bool" where
  "isspace c \<longleftrightarrow> c \<in> set [CHR '' '', CHR 0x09, CHR 0x0A, CHR 0x0B, CHR 0x0C, CHR 0x0D]"

definition isdigit :: "char \<Rightarrow> bool" where
  "isdigit c \<longleftrightarrow> c \<in> set ''0123456789''"

definition digit_value :: "char \<Rightarrow> int" where
  "digit_value c = of_char c - 48"

definition stoll :: "string \<Rightarrow> error + int" where
  "stoll str =
     (let s1 = dropWhile isspace str;
          negative = (s1 \<noteq> [] \<and> hd s1 = CHR ''-'');
          s2 = (if s1 \<noteq> [] \<and> (hd s1 = CHR ''-'' \<or> hd s1 = CHR ''+'') then tl s1 else s1);
          digits = takeWhile isdigit s2
      in if digits = [] then Inl (InvalidArgument ''stoll'')
         else (let n = foldl (\<lambda>a c. 10 * a + digit_value c) 0 digits;
                   v = (if negative then - n else n)
               in if v < - (2 ^ 63) \<or> 2 ^ 63 - 1 < v then Inl (OutOfRange ''stoll'')
                  else Inr v))"

text \<open>
  \<open>path.extension()\<close> and \<open>path.stem()\<close> of a file name: the extension starts at the
  last dot, unless the name has no dot, has its only dot in front, or is \<open>.\<close> or \<open>..\<close>.
\<close>

definition extension :: "string \<Rightarrow> string" where
  "extension name =
     (let after = length (takeWhile (\<lambda>c. c \<noteq> CHR ''.'') (rev name))
      in if name = ''..'' \<or> after = length name \<or> after + 1 = length name then []
         else drop (length name - after - 1) name)"

definition stem :: "string \<Rightarrow> string" where
  "stem name = take (length name - length (extension name)) name"

text \<open>\<open>s.find(c)\<close> and \<open>s.rfind(c)\<close>; \<open>None\<close> is \<open>std::string::npos\<close>.\<close>

definition find_char :: "string \<Rightarrow> char \<Rightarrow> nat option" where
  "find_char s c = (if c \<in> set s then Some (length (takeWhile (\<lambda>x. x \<noteq> c) s)) else None)"

definition rfind_char :: "string \<Rightarrow> char \<Rightarrow> nat option" where
  "rfind_char s c =
     (if c \<in> set s then Some (length s - 1 - length (takeWhile (\<lambda>x. x \<noteq> c) (rev s))) else None)"

text \<open>
  \<open>s.substr(pos, n)\<close> for \<open>pos \<le> s.size()\<close>: the \<open>size_t\<close> count is cut down to what is
  left of the string behind \<open>pos\<close>.
\<close>

definition substr :: "string \<Rightarrow> nat \<Rightarrow> size_t \<Rightarrow> string" where
  "substr s pos n =
     (let rest = drop pos s
      in if int (length rest) \<le> uint n then rest else take (nat (uint n)) rest)"

section \<open>The segment store (\<open>disk_layer.cpp\<close>)\<close>

record DiskConfig =
  enable_compression :: bool
  batch_size :: size_t
  max_segment_size_mb :: size_t

definition default_DiskConfig :: DiskConfig where
  "default_DiskConfig = \<lparr>enable_compression = True, batch_size = 1000, max_segment_size_mb = 64\<rparr>"

type_synonym segment_index = "(string \<times> (nat \<times> SegmentInfo) list) list"

text \<open>
  The state of a \<open>DiskLayer\<close>: the index \<open>metadata\<close>, the configuration, and the regular
  files of the data directory by name (a \<open>file_path\<close> is the name inside the data
  directory).
\<close>

record 'b DiskLayer =
  metadata :: segment_index
  cfg :: DiskConfig
  files :: "(string \<times> 'b segment_file) list"

text \<open>
  The index mutex \<open>std::shared_mutex mutex\<close>.  Every function takes it through a scoped
  lock, so a thread owns nothing of it when it enters a public function of
  \<open>DiskLayer\<close>, and the locks it takes then are granted and given back.
  \<open>read_segment\<close> and \<open>write_segment\<close> lock the mutex themselves and are also called
  by functions that hold it; an \<open>ownership\<close> is what the calling thread owns of the
  mutex at such a call.  A thread that owns the mutex exclusively and locks it again
  breaks the precondition of \<open>lock\<close> and \<open>lock_shared\<close>: where the library detects
  it (libstdc++ on glibc, where \<open>pthread_rwlock_rdlock\<close> and \<open>pthread_rwlock_wrlock\<close>
  return \<open>EDEADLK\<close>) the lock throws \<open>std::system_error\<close>, elsewhere the thread waits
  for itself.  A second shared lock of a thread that holds a shared lock is granted;
  an exclusive lock of a thread that holds a shared lock waits for that shared lock
  (no call of the code does this).  The mutexes of the memory buffer and of the engine
  are never locked by a thread that holds them, and are not represented.
\<close>

datatype ownership = Unowned | OwnsShared | OwnsExclusive

definition relock :: "'b platform \<Rightarrow> error" where
  "relock P = (if detects_deadlock P then SystemError ''Resource deadlock avoided'' else Deadlock)"

definition lock_shared :: "'b platform \<Rightarrow> ownership \<Rightarrow> error + unit" where
  "lock_shared P own =
     (case own of
        Unowned \<Rightarrow> Inr ()
      | OwnsShared \<Rightarrow> Inr ()
      | OwnsExclusive \<Rightarrow> Inl (relock P))"

definition lock_unique :: "'b platform \<Rightarrow> ownership \<Rightarrow> error + unit" where
  "lock_unique P own =
     (case own of
        Unowned \<Rightarrow> Inr ()
      | OwnsShared \<Rightarrow> Inl Deadlock
      | OwnsExclusive \<Rightarrow> Inl (relock P))"

definition set_segment :: "string \<Rightarrow> nat \<Rightarrow> SegmentInfo \<Rightarrow> segment_index \<Rightarrow> segment_index" where
  "set_segment sy segment_id info md =
     AList.update sy (AList.update segment_id info (lookup_default [] md sy)) md"

definition count_points_in_segment :: "'b platform \<Rightarrow> 'b segment_file \<Rightarrow> nat" where
  "count_points_in_segment P f = leading_uint64 P f"

text \<open>
  The loop of \<open>load_existing_segments\<close> over the directory entries; an entry is a name
  and the regular file behind it, or \<open>None\<close> when it is not a regular file.  The
  exceptions of \<open>std::stoll\<close> are not caught.
\<close>

fun load_existing_segments ::
  "'b platform \<Rightarrow> (string \<times> 'b segment_file option) list \<Rightarrow> segment_index \<Rightarrow> error + segment_index" where
  "load_existing_segments P [] md = Inr md"
| "load_existing_segments P ((name, entry) # rest) md =
     (case entry of
        None \<Rightarrow> load_existing_segments P rest md
      | Some f \<Rightarrow>
          if extension name \<noteq> ''.dat'' then load_existing_segments P rest md
          else (let filename = stem name in
            case (find_char filename CHR ''_'', rfind_char filename CHR ''_'') of
              (Some first_underscore, Some last_underscore) \<Rightarrow>
                (let sy = substr filename 0 (of_nat first_underscore) in
                 case stoll (substr filename (first_underscore + 1)
                               (of_nat last_underscore - of_nat first_underscore - 1)) of
                   Inl err \<Rightarrow> Inl err
                 | Inr start \<Rightarrow>
                     (case stoll (drop (last_underscore + 1) filename) of
                        Inl err \<Rightarrow> Inl err
                      | Inr end' \<Rightarrow>
                          load_existing_segments P rest
                            (set_segment sy 0
                               \<lparr>start_time = start, end_time = end',
                                num_points = count_points_in_segment P f,
                                file_path = name, compressed = False\<rparr> md)))
            | _ \<Rightarrow> load_existing_segments P rest md))"

text \<open>
  The constructor of \<open>DiskLayer\<close>: the regular files and the names of the other entries
  of the data directory are given; the index is what the scan finds.
\<close>

definition new_DiskLayer ::
  "'b platform \<Rightarrow> DiskConfig \<Rightarrow> (string \<times> 'b segment_file) list \<Rightarrow> string list \<Rightarrow> error + 'b DiskLayer" where
  "new_DiskLayer P c regular others =
     (case load_existing_segments P
             (map (\<lambda>(name, f). (name, Some f)) regular @ map (\<lambda>name. (name, None)) others) [] of
        Inl err \<Rightarrow> Inl err
      | Inr md \<Rightarrow> Inr \<lparr>metadata = md, cfg = c, files = regular\<rparr>)"

definition segment_file_name :: "string \<Rightarrow> nat \<Rightarrow> string" where
  "segment_file_name sy segment_id = sy @ ''_'' @ to_string segment_id @ ''.seg''"

definition encode_points :: "'b platform \<Rightarrow> bool \<Rightarrow> TimeSeriesPoint list \<Rightarrow> 'b" where
  "encode_points P compress pts =
     (if compress then compress_time_series P (map (\<lambda>p. (timestamp p, val p)) pts)
      else memcpy_points P pts)"

definition decode_points :: "'b platform \<Rightarrow> string \<Rightarrow> SegmentInfo \<Rightarrow> 'b \<Rightarrow> TimeSeriesPoint list" where
  "decode_points P sy info data =
     (if compressed info
      then map (\<lambda>(t, v). \<lparr>timestamp = t, val = v, symbol = sy\<rparr>) (decompress_time_series P data)
      else reinterpret_points P data (num_points info))"

text \<open>
  \<open>write_segment\<close> writes and closes the file and then locks the mutex exclusively to
  enter the segment in the index; \<open>own\<close> is what its caller owns of the mutex.
\<close>

definition write_segment ::
  "'b platform \<Rightarrow> ownership \<Rightarrow> string \<Rightarrow> TimeSeriesPoint list \<Rightarrow> nat \<Rightarrow> 'b DiskLayer \<Rightarrow>
   (error + unit) \<times> 'b DiskLayer" where
  "write_segment P own sy pts segment_id d =
     (if pts = [] then (Inr (), d)
      else (let segment_file = segment_file_name sy segment_id;
                data = encode_points P (enable_compression (cfg d)) pts
            in if \<not> can_create P segment_file
               then (Inl (RuntimeError (''Failed to create segment file: '' @ segment_file)), d)
               else (let info = \<lparr>start_time = timestamp (hd pts), end_time = timestamp (last pts),
                                 num_points = length pts, file_path = segment_file,
                                 compressed = enable_compression (cfg d)\<rparr>;
                         d1 = d\<lparr>files := AList.update segment_file
                                        \<lparr>header = info, payload = data\<rparr> (files d)\<rparr>
                     in case lock_unique P own of
                          Inl err \<Rightarrow> (Inl err, d1)
                        | Inr u \<Rightarrow>
                            (Inr (), d1\<lparr>metadata := set_segment sy segment_id info (metadata d)\<rparr>))))"

text \<open>
  \<open>read_segment\<close> begins with a shared lock of the mutex; \<open>own\<close> is what its caller owns
  of the mutex.
\<close>

definition read_segment ::
  "'b platform \<Rightarrow> ownership \<Rightarrow> 'b DiskLayer \<Rightarrow> string \<Rightarrow> nat \<Rightarrow> error + TimeSeriesPoint list" where
  "read_segment P own d sy segment_id =
     (case lock_shared P own of
        Inl err \<Rightarrow> Inl err
      | Inr u \<Rightarrow>
          (case map_of (metadata d) sy of
             None \<Rightarrow> Inr []
           | Some segs \<Rightarrow>
               (case map_of segs segment_id of
                  None \<Rightarrow> Inr []
                | Some info \<Rightarrow>
                    (case map_of (files d) (file_path info) of
                       None \<Rightarrow> Inl (RuntimeError (''Failed to open segment file: '' @ file_path info))
                     | Some f \<Rightarrow> Inr (decode_points P sy info (payload f))))))"

text \<open>
  The second loop of \<open>range_query\<close>: read each relevant segment and keep the points in
  range.  \<open>range_query\<close> holds a shared lock of the mutex while it runs.
\<close>

fun read_and_filter ::
  "'b platform \<Rightarrow> 'b DiskLayer \<Rightarrow> string \<Rightarrow> time_point \<Rightarrow> time_point \<Rightarrow> nat list \<Rightarrow>
   TimeSeriesPoint list \<Rightarrow> error + TimeSeriesPoint list" where
  "read_and_filter P d sy start end' [] results = Inr results"
| "read_and_filter P d sy start end' (segment_id # rest) results =
     (case read_segment P OwnsShared d sy segment_id of
        Inl err \<Rightarrow> Inl err
      | Inr pts \<Rightarrow>
          read_and_filter P d sy start end' rest
            (results @ filter (\<lambda>point. timestamp point \<ge> start \<and> timestamp point < end') pts))"

definition range_query ::
  "'b platform \<Rightarrow> 'b DiskLayer \<Rightarrow> string \<Rightarrow> time_point \<Rightarrow> time_point \<Rightarrow> error + TimeSeriesPoint list" where
  "range_query P d sy start end' =
     (case map_of (metadata d) sy of
        None \<Rightarrow> Inr []
      | Some segs \<Rightarrow>
          (let relevant_segments =
                 map fst (filter (\<lambda>(segment_id, segment_info).
                            start_time segment_info \<le> end' \<and> end_time segment_info \<ge> start) segs)
           in case read_and_filter P d sy start end' relevant_segments [] of
                Inl err \<Rightarrow> Inl err
              | Inr results \<Rightarrow> Inr (std_sort P results)))"

definition DiskLayer_read_range ::
  "'b platform \<Rightarrow> 'b DiskLayer \<Rightarrow> string \<Rightarrow> time_point \<Rightarrow> time_point \<Rightarrow> error + TimeSeriesPoint list" where
  "DiskLayer_read_range P d sy start end' = range_query P d sy start end'"

text \<open>
  \<open>optimize_segments\<close> locks the mutex exclusively in its first line and holds it to
  its end, so it calls \<open>read_segment\<close> and \<open>write_segment\<close> as the owner.  Its first
  loop reads every segment of the symbol and removes its file
  (\<open>std::filesystem::remove\<close>); when \<open>read_segment\<close> does not return, the loop is left
  with the files removed so far.
\<close>

fun collect_and_remove ::
  "'b platform \<Rightarrow> string \<Rightarrow> (nat \<times> SegmentInfo) list \<Rightarrow> TimeSeriesPoint list \<Rightarrow> 'b DiskLayer \<Rightarrow>
   (error + TimeSeriesPoint list) \<times> 'b DiskLayer" where
  "collect_and_remove P sy [] all_points d = (Inr all_points, d)"
| "collect_and_remove P sy ((segment_id, segment_info) # rest) all_points d =
     (case read_segment P OwnsExclusive d sy segment_id of
        Inl err \<Rightarrow> (Inl err, d)
      | Inr pts \<Rightarrow>
          collect_and_remove P sy rest (all_points @ pts)
            (d\<lparr>files := AList.delete (file_path segment_info) (files d)\<rparr>))"

definition points_per_segment :: nat where
  "points_per_segment = 10000"

text \<open>
  The loop \<open>for (size_t i = 0; i < all_points.size(); i += points_per_segment)\<close> of
  \<open>optimize_segments\<close> and of \<open>optimize_index\<close>, which both hold the mutex exclusively
  around it.
\<close>

function write_segments ::
  "'b platform \<Rightarrow> string \<Rightarrow> TimeSeriesPoint list \<Rightarrow> nat \<Rightarrow> nat \<Rightarrow> 'b DiskLayer \<Rightarrow>
   (error + unit) \<times> 'b DiskLayer" where
  "write_segments P sy all_points i current_segment d =
     (if i < length all_points
      then (let end_idx = min (i + points_per_segment) (length all_points);
                segment_points = take (end_idx - i) (drop i all_points)
            in case write_segment P OwnsExclusive sy segment_points current_segment d of
                 (Inl err, d') \<Rightarrow> (Inl err, d')
               | (Inr u, d') \<Rightarrow>
                   write_segments P sy all_points (i + points_per_segment) (current_segment + 1) d')
      else (Inr (), d))"
  by pat_completeness auto
termination
  by (relation "measure (\<lambda>(P, sy, all_points, i, current_segment, d). length all_points - i)")
     (auto simp: points_per_segment_def)

declare write_segments.simps [simp del]

definition optimize_segments ::
  "'b platform \<Rightarrow> string \<Rightarrow> 'b DiskLayer \<Rightarrow> (error + unit) \<times> 'b DiskLayer" where
  "optimize_segments P sy d =
     (case map_of (metadata d) sy of
        None \<Rightarrow> (Inr (), d)
      | Some segs \<Rightarrow>
          (case collect_and_remove P sy segs [] d of
             (Inl err, d1) \<Rightarrow> (Inl err, d1)
           | (Inr all_points, d1) \<Rightarrow>
               if all_points = [] then (Inr (), d1)
               else write_segments P sy (std_sort P all_points) 0 0
                      (d1\<lparr>metadata := AList.update sy [] (metadata d1)\<rparr>)))"

definition DiskLayer_compact_segments ::
  "'b platform \<Rightarrow> string \<Rightarrow> 'b DiskLayer \<Rightarrow> (error + unit) \<times> 'b DiskLayer" where
  "DiskLayer_compact_segments P sy d = optimize_segments P sy d"

text \<open>
  \<open>DiskLayer::write_batch\<close>: the next segment id, and the loop over the groups.  The
  shared lock around the computation of the id is given back before \<open>write_segment\<close>
  is called.
\<close>

definition next_segment_id :: "segment_index \<Rightarrow> string \<Rightarrow> nat" where
  "next_segment_id md sy =
     (case map_of md sy of
        None \<Rightarrow> 0
      | Some segs \<Rightarrow> if segs = [] then 0 else Max (set (map fst segs)) + 1)"

fun write_groups ::
  "'b platform \<Rightarrow> (string \<times> TimeSeriesPoint list) list \<Rightarrow> 'b DiskLayer \<Rightarrow> (error + unit) \<times> 'b DiskLayer" where
  "write_groups P [] d = (Inr (), d)"
| "write_groups P ((sy, symbol_points) # rest) d =
     (case write_segment P Unowned sy (std_sort P symbol_points) (next_segment_id (metadata d) sy) d of
        (Inl err, d') \<Rightarrow> (Inl err, d')
      | (Inr u, d') \<Rightarrow> write_groups P rest d')"

definition DiskLayer_write_batch ::
  "'b platform \<Rightarrow> TimeSeriesPoint list \<Rightarrow> 'b DiskLayer \<Rightarrow> (error + bool) \<times> 'b DiskLayer" where
  "DiskLayer_write_batch P pts d =
     (if pts = [] then (Inr True, d)
      else (case write_groups P (group_by_symbol pts) d of
              (Inl err, d') \<Rightarrow> (Inl err, d')
            | (Inr u, d') \<Rightarrow> (Inr True, d')))"

text \<open>
  \<open>optimize_index\<close>: \<open>optimize_symbol\<close> is the body of the \<open>try\<close> block for one symbol,
  which locks the mutex exclusively in its first line and holds it to its end; the
  \<open>catch\<close> logs the exception and goes on with the next symbol.  A call that waits
  for ever is not caught: the loop stops there.
\<close>

fun collect_all ::
  "'b platform \<Rightarrow> 'b DiskLayer \<Rightarrow> string \<Rightarrow> (nat \<times> SegmentInfo) list \<Rightarrow> TimeSeriesPoint list \<Rightarrow>
   error + TimeSeriesPoint list" where
  "collect_all P d sy [] all_points = Inr all_points"
| "collect_all P d sy ((segment_id, segment_info) # rest) all_points =
     (case read_segment P OwnsExclusive d sy segment_id of
        Inl err \<Rightarrow> Inl err
      | Inr pts \<Rightarrow> collect_all P d sy rest (all_points @ pts))"

definition optimize_symbol ::
  "'b platform \<Rightarrow> string \<Rightarrow> 'b DiskLayer \<Rightarrow> (error + unit) \<times> 'b DiskLayer" where
  "optimize_symbol P sy d =
     (case map_of (metadata d) sy of
        None \<Rightarrow> (Inr (), d)
      | Some segs \<Rightarrow>
          (case collect_all P d sy segs [] of
             Inl err \<Rightarrow> (Inl err, d)
           | Inr all_points \<Rightarrow>
               if all_points = [] then (Inr (), d)
               else (let unique_points = std_unique (std_sort P all_points);
                         d1 = d\<lparr>files := fold (\<lambda>(segment_id, segment_info).
                                            AList.delete (file_path segment_info)) segs (files d)\<rparr>;
                         d2 = d1\<lparr>metadata := AList.update sy [] (metadata d1)\<rparr>
                     in write_segments P sy unique_points 0 0 d2)))"

fun optimize_symbols ::
  "'b platform \<Rightarrow> string list \<Rightarrow> 'b DiskLayer \<Rightarrow> (error + unit) \<times> 'b DiskLayer" where
  "optimize_symbols P [] d = (Inr (), d)"
| "optimize_symbols P (sy # rest) d =
     (case optimize_symbol P sy d of
        (Inl err, d') \<Rightarrow> if err = Deadlock then (Inl Deadlock, d') else optimize_symbols P rest d'
      | (Inr u, d') \<Rightarrow> optimize_symbols P rest d')"

definition DiskLayer_optimize_index ::
  "'b platform \<Rightarrow> 'b DiskLayer \<Rightarrow> (error + unit) \<times> 'b DiskLayer" where
  "DiskLayer_optimize_index P d = optimize_symbols P (map fst (metadata d)) d"

text \<open>
  \<open>get_storage_size\<close>: \<open>std::filesystem::file_size\<close> with an error code gives
  \<open>static_cast<uintmax_t>(-1)\<close> for a file that is not there.
\<close>

definition DiskLayer_get_storage_size :: "'b platform \<Rightarrow> 'b DiskLayer \<Rightarrow> size_t" where
  "DiskLayer_get_storage_size P d =
     fold (\<lambda>(sy, data) total.
             fold (\<lambda>(segment_id, segment) total'.
                     total' + (case map_of (files d) (file_path segment) of
                                 None \<Rightarrow> - 1
                               | Some f \<Rightarrow> file_size P f)) data total)
          (metadata d) 0"

text \<open>
  What the store holds: the points of one indexed segment (none when its file is
  missing), and the points of all segments of a symbol.  \<open>disk_inv\<close> is what
  \<open>write_segment\<close> establishes for each segment it indexes: segment ids are unique
  per symbol, the segment's file exists, and \<open>start_time\<close> and \<open>end_time\<close> bound the
  timestamps of its points.
\<close>

definition segment_points ::
  "'b platform \<Rightarrow> 'b DiskLayer \<Rightarrow> string \<Rightarrow> SegmentInfo \<Rightarrow> TimeSeriesPoint list" where
  "segment_points P d sy info =
     (case map_of (files d) (file_path info) of
        None \<Rightarrow> []
      | Some f \<Rightarrow> decode_points P sy info (payload f))"

definition stored_points :: "'b platform \<Rightarrow> 'b DiskLayer \<Rightarrow> string \<Rightarrow> TimeSeriesPoint list" where
  "stored_points P d sy =
     concat (map (\<lambda>entry. segment_points P d sy (snd entry)) (lookup_default [] (metadata d) sy))"

definition segment_ok :: "'b platform \<Rightarrow> 'b DiskLayer \<Rightarrow> string \<Rightarrow> SegmentInfo \<Rightarrow> bool" where
  "segment_ok P d sy info \<longleftrightarrow>
     map_of (files d) (file_path info) \<noteq> None \<and>
     (\<forall>p \<in> set (segment_points P d sy info).
        start_time info \<le> timestamp p \<and> timestamp p \<le> end_time info)"

definition disk_inv :: "'b platform \<Rightarrow> 'b DiskLayer \<Rightarrow> bool" where
  "disk_inv P d \<longleftrightarrow>
     (\<forall>sym_entry \<in> set (metadata d).
        distinct (map fst (snd sym_entry)) \<and>
        (\<forall>entry \<in> set (snd sym_entry). segment_ok P d (fst sym_entry) (snd entry)))"

text \<open>
  What else holds of an index that only \<open>write_segment\<close> has filled: symbols are
  unique, every segment's file has the name that \<open>write_segment\<close> gives it, and no
  segment is empty.
\<close>

definition index_wf :: "'b platform \<Rightarrow> 'b DiskLayer \<Rightarrow> bool" where
  "index_wf P d \<longleftrightarrow>
     distinct (map fst (metadata d)) \<and>
     (\<forall>sym_entry \<in> set (metadata d). \<forall>entry \<in> set (snd sym_entry).
        file_path (snd entry) = segment_file_name (fst sym_entry) (fst entry) \<and>
        segment_points P d (fst sym_entry) (snd entry) \<noteq> [])"

definition store_inv :: "'b platform \<Rightarrow> 'b DiskLayer \<Rightarrow> bool" where
  "store_inv P d \<longleftrightarrow> disk_inv P d \<and> index_wf P d"

section \<open>The storage engine (\<open>storage_engine.cpp\<close>)\<close>

record DiskLayerConfig =
  disk_cache_size_mb :: size_t
  max_disk_segment_size_mb :: size_t

record EngineConfig =
  memory_cache_size_mb :: size_t
  data_directory :: string
  engine_enable_compression :: bool
  engine_batch_size :: size_t
  engine_max_segment_size_mb :: size_t
  max_memory_points :: size_t
  disk_config :: DiskLayerConfig

record EngineStats =
  stats_total_points :: size_t
  stats_cache_hits :: size_t
  stats_cache_misses :: size_t
  cache_hit_ratio :: real
  storage_size_bytes :: size_t

record 'b StorageEngine =
  config :: EngineConfig
  memory_layer :: MemoryLayer
  disk_layer :: "'b DiskLayer"
  total_points :: size_t
  cache_hits :: size_t
  cache_misses :: size_t

text \<open>
  The constructor: the engine builds its \<open>DiskLayer\<close> over the data directory with the
  default \<open>DiskConfig\<close>, so the scan of the directory runs and compression is on.
\<close>

definition new_StorageEngine ::
  "'b platform \<Rightarrow> EngineConfig \<Rightarrow> (string \<times> 'b segment_file) list \<Rightarrow> string list \<Rightarrow>
   error + 'b StorageEngine" where
  "new_StorageEngine P c regular others =
     (case new_DiskLayer P default_DiskConfig regular others of
        Inl err \<Rightarrow> Inl err
      | Inr d \<Rightarrow>
          Inr \<lparr>config = c, memory_layer = new_MemoryLayer (memory_cache_size_mb c),
               disk_layer = d, total_points = 0, cache_hits = 0, cache_misses = 0\<rparr>)"

text \<open>\<open>flush\<close>: first the block that collects the points of all symbols under the lock.\<close>

definition points_to_flush :: "MemoryLayer \<Rightarrow> TimeSeriesPoint list" where
  "points_to_flush m =
     (let symbols = MemoryLayer_get_symbols m
      in concat (map (\<lambda>sy. MemoryLayer_get_range m sy time_point_min time_point_max) symbols))"

definition StorageEngine_flush ::
  "'b platform \<Rightarrow> 'b StorageEngine \<Rightarrow> (error + bool) \<times> 'b StorageEngine" where
  "StorageEngine_flush P e =
     (if points_to_flush (memory_layer e) = [] then (Inr True, e)
      else (case DiskLayer_write_batch P (points_to_flush (memory_layer e)) (disk_layer e) of
              (Inl err, d') \<Rightarrow> (Inl err, e\<lparr>disk_layer := d'\<rparr>)
            | (Inr success, d') \<Rightarrow>
                (Inr success,
                 if success
                 then e\<lparr>disk_layer := d',
                        memory_layer := MemoryLayer_clear_cache (memory_layer e)\<rparr>
                 else e\<lparr>disk_layer := d'\<rparr>)))"

definition StorageEngine_write_point ::
  "'b platform \<Rightarrow> TimeSeriesPoint \<Rightarrow> 'b StorageEngine \<Rightarrow> (error + bool) \<times> 'b StorageEngine" where
  "StorageEngine_write_point P point e =
     (case MemoryLayer_insert point (memory_layer e) of
        (False, m) \<Rightarrow> (Inr False, e\<lparr>memory_layer := m\<rparr>)
      | (True, m) \<Rightarrow>
          (let needs_flush = (MemoryLayer_cache_size m \<ge> max_memory_points (config e));
               e' = e\<lparr>memory_layer := m, total_points := total_points e + 1\<rparr>
           in if needs_flush then StorageEngine_flush P e' else (Inr True, e')))"

definition StorageEngine_write_batch ::
  "'b platform \<Rightarrow> TimeSeriesPoint list \<Rightarrow> 'b StorageEngine \<Rightarrow> (error + bool) \<times> 'b StorageEngine" where
  "StorageEngine_write_batch P pts e =
     (if pts = [] then (Inr True, e)
      else (case MemoryLayer_insert_batch (std_sort P) pts (memory_layer e) of
              (False, m) \<Rightarrow> (Inr False, e\<lparr>memory_layer := m\<rparr>)
            | (True, m) \<Rightarrow>
                (let needs_flush = (MemoryLayer_cache_size m \<ge> max_memory_points (config e));
                     e' = e\<lparr>memory_layer := m,
                            total_points := total_points e + of_nat (length pts)\<rparr>
                 in if needs_flush then StorageEngine_flush P e' else (Inr True, e'))))"

definition StorageEngine_read_range ::
  "'b platform \<Rightarrow> 'b StorageEngine \<Rightarrow> string \<Rightarrow> time_point \<Rightarrow> time_point \<Rightarrow>
   error + TimeSeriesPoint list" where
  "StorageEngine_read_range P e sy start end' =
     (let memory_points = MemoryLayer_get_range (memory_layer e) sy start end'
      in case DiskLayer_read_range P (disk_layer e) sy start end' of
           Inl err \<Rightarrow> Inl err
         | Inr disk_points \<Rightarrow> Inr (std_sort P (memory_points @ disk_points)))"

definition StorageEngine_get_latest ::
  "'b platform \<Rightarrow> 'b StorageEngine \<Rightarrow> string \<Rightarrow> error + TimeSeriesPoint option" where
  "StorageEngine_get_latest P e sy =
     (case MemoryLayer_get_latest (memory_layer e) sy of
        Some point \<Rightarrow> Inr (Some point)
      | None \<Rightarrow>
          (case DiskLayer_read_range P (disk_layer e) sy time_point_min time_point_max of
             Inl err \<Rightarrow> Inl err
           | Inr disk_points \<Rightarrow>
               Inr (if disk_points \<noteq> [] then Some (last disk_points) else None)))"

definition StorageEngine_get_symbols :: "'b StorageEngine \<Rightarrow> string list" where
  "StorageEngine_get_symbols e = MemoryLayer_get_symbols (memory_layer e)"

definition StorageEngine_optimize ::
  "'b platform \<Rightarrow> 'b StorageEngine \<Rightarrow> (error + unit) \<times> 'b StorageEngine" where
  "StorageEngine_optimize P e =
     (case StorageEngine_flush P e of
        (Inl err, e') \<Rightarrow> (Inl err, e')
      | (Inr b, e') \<Rightarrow>
          (case DiskLayer_optimize_index P (disk_layer e') of
             (r, d') \<Rightarrow> (r, e'\<lparr>disk_layer := d'\<rparr>)))"

text \<open>
  \<open>get_cache_hit_ratio\<close>: the quotient of two \<open>size_t\<close> converted to \<open>double\<close> is taken
  in the reals here; the other branch is the literal \<open>0.0\<close>.
\<close>

definition get_cache_hit_ratio :: "'b StorageEngine \<Rightarrow> real" where
  "get_cache_hit_ratio e =
     (let total_hits = cache_hits e;
          total_misses = cache_misses e;
          total_requests = total_hits + total_misses
      in if total_requests > 0 then real (unat total_hits) / real (unat total_requests) else 0)"

definition StorageEngine_get_stats :: "'b platform \<Rightarrow> 'b StorageEngine \<Rightarrow> EngineStats" where
  "StorageEngine_get_stats P e =
     \<lparr>stats_total_points = total_points e,
      stats_cache_hits = cache_hits e,
      stats_cache_misses = cache_misses e,
      cache_hit_ratio = get_cache_hit_ratio e,
      storage_size_bytes = DiskLayer_get_storage_size P (disk_layer e)\<rparr>"

text \<open>
  The public operations of the engine as commands; \<open>run_engine\<close> runs a sequence of them
  and gives the state the engine is left in, whether a call returns or throws.  A call
  that waits for ever ends the run: \<open>op_ends\<close> tells whether the call returns or throws.
\<close>

datatype engine_op =
    WritePoint TimeSeriesPoint
  | WriteBatch "TimeSeriesPoint list"
  | Flush
  | ReadRange string time_point time_point
  | GetLatest string
  | GetSymbols
  | Optimize
  | GetStats

fun apply_engine_op :: "'b platform \<Rightarrow> engine_op \<Rightarrow> 'b StorageEngine \<Rightarrow> 'b StorageEngine" where
  "apply_engine_op P (WritePoint p) e = snd (StorageEngine_write_point P p e)"
| "apply_engine_op P (WriteBatch ps) e = snd (StorageEngine_write_batch P ps e)"
| "apply_engine_op P Flush e = snd (StorageEngine_flush P e)"
| "apply_engine_op P (ReadRange sy start end') e = e"
| "apply_engine_op P (GetLatest sy) e = e"
| "apply_engine_op P GetSymbols e = e"
| "apply_engine_op P Optimize e = snd (StorageEngine_optimize P e)"
| "apply_engine_op P GetStats e = e"

definition ends :: "error + 'a \<Rightarrow> bool" where
  "ends r \<longleftrightarrow> r \<noteq> Inl Deadlock"

fun op_ends :: "'b platform \<Rightarrow> engine_op \<Rightarrow> 'b StorageEngine \<Rightarrow> bool" where
  "op_ends P (WritePoint p) e = ends (fst (StorageEngine_write_point P p e))"
| "op_ends P (WriteBatch ps) e = ends (fst (StorageEngine_write_batch P ps e))"
| "op_ends P Flush e = ends (fst (StorageEngine_flush P e))"
| "op_ends P (ReadRange sy start end') e = ends (StorageEngine_read_range P e sy start end')"
| "op_ends P (GetLatest sy) e = ends (StorageEngine_get_latest P e sy)"
| "op_ends P GetSymbols e = True"
| "op_ends P Optimize e = ends (fst (StorageEngine_optimize P e))"
| "op_ends P GetStats e = True"

fun run_engine :: "'b platform \<Rightarrow> engine_op list \<Rightarrow> 'b StorageEngine \<Rightarrow> 'b StorageEngine" where
  "run_engine P [] e = e"
| "run_engine P (opr # ops) e =
     (if op_ends P opr e then run_engine P ops (apply_engine_op P opr e)
      else apply_engine_op P opr e)"

text \<open>
  The invariant of the engine: M1 for the buffer, 64-bit timestamps in the buffer, and
  the invariants of the segment store.  The points that an operation hands to the
  engine are its arguments.
\<close>

definition engine_inv :: "'b platform \<Rightarrow> 'b StorageEngine \<Rightarrow> bool" where
  "engine_inv P e \<longleftrightarrow>
     M1 (memory_layer e) \<and> valid_memory (memory_layer e) \<and> store_inv P (disk_layer e)"

fun op_points :: "engine_op \<Rightarrow> TimeSeriesPoint list" where
  "op_points (WritePoint p) = [p]"
| "op_points (WriteBatch ps) = ps"
| "op_points other = []"

section \<open>A concrete platform and concrete states\<close>

text \<open>
  One platform on which everything can be run: byte sequences are tagged lists, the
  codec and the byte image are the tags, the sort is the stable insertion sort, and
  every file can be created, and a lock of an owned mutex throws.
  \<open>readonly_platform\<close> differs in that no file can be created, \<open>blocking_platform\<close> in
  that a lock of an owned mutex waits.
\<close>

datatype bytes = Packed "TimePoint list" | Raw "TimeSeriesPoint list"

definition simple_platform :: "bytes platform" where
  "simple_platform =
     \<lparr>std_sort = stable_sort_points,
      compress_time_series = Packed,
      decompress_time_series = (\<lambda>b. case b of Packed tps \<Rightarrow> tps | Raw ps \<Rightarrow> []),
      memcpy_points = Raw,
      reinterpret_points = (\<lambda>b n. case b of Raw ps \<Rightarrow> take n ps | Packed tps \<Rightarrow> []),
      can_create = (\<lambda>path. True),
      leading_uint64 = (\<lambda>f. 0),
      file_size = (\<lambda>f. 0),
      detects_deadlock = True\<rparr>"

definition readonly_platform :: "bytes platform" where
  "readonly_platform = simple_platform\<lparr>can_create := (\<lambda>path. False)\<rparr>"

definition blocking_platform :: "bytes platform" where
  "blocking_platform = simple_platform\<lparr>detects_deadlock := False\<rparr>"

definition example_config :: EngineConfig where
  "example_config =
     \<lparr>memory_cache_size_mb = 64, data_directory = ''data'', engine_enable_compression = True,
      engine_batch_size = 1000, engine_max_segment_size_mb = 16, max_memory_points = 1000000,
      disk_config = \<lparr>disk_cache_size_mb = 0, max_disk_segment_size_mb = 0\<rparr>\<rparr>"

definition empty_DiskLayer :: "bytes DiskLayer" where
  "empty_DiskLayer = \<lparr>metadata = [], cfg = default_DiskConfig, files = []\<rparr>"

definition empty_engine :: "bytes StorageEngine" where
  "empty_engine =
     \<lparr>config = example_config, memory_layer = new_MemoryLayer 64, disk_layer = empty_DiskLayer,
      total_points = 0, cache_hits = 0, cache_misses = 0\<rparr>"

text \<open>A buffer that holds AAPL at 10, 20 and 30 and MSFT at 5, and an engine around it.\<close>

definition example_memory :: MemoryLayer where
  "example_memory =
     \<lparr>symbol_data =
        [(''AAPL'',
          \<lparr>points = [\<lparr>timestamp = 10, val = 7, symbol = ''AAPL''\<rparr>,
                     \<lparr>timestamp = 20, val = 2, symbol = ''AAPL''\<rparr>,
                     \<lparr>timestamp = 30, val = 1, symbol = ''AAPL''\<rparr>],
           sd_total_points = 3\<rparr>),
         (''MSFT'',
          \<lparr>points = [\<lparr>timestamp = 5, val = 5, symbol = ''MSFT''\<rparr>], sd_total_points = 1\<rparr>)],
      cache_size_mb = 64, ml_total_points = 4\<rparr>"

definition example_engine :: "bytes StorageEngine" where
  "example_engine = empty_engine\<lparr>memory_layer := example_memory, total_points := 4\<rparr>"

text \<open>
  A segment store after two \<open>write_batch\<close> calls that each wrote one point of FB with
  timestamp 1 (what two flushes of the same timestamp leave on disk), and an engine
  after \<open>write_batch\<close> of one point with the largest timestamp followed by \<open>flush()\<close>.
\<close>

definition duplicate_timestamp_disk :: "bytes DiskLayer" where
  "duplicate_timestamp_disk =
     snd (DiskLayer_write_batch simple_platform [\<lparr>timestamp = 1, val = 200, symbol = ''FB''\<rparr>]
       (snd (DiskLayer_write_batch simple_platform [\<lparr>timestamp = 1, val = 100, symbol = ''FB''\<rparr>]
          empty_DiskLayer)))"

definition max_timestamp_engine :: "bytes StorageEngine" where
  "max_timestamp_engine =
     snd (StorageEngine_flush simple_platform
       (snd (StorageEngine_write_batch simple_platform
          [\<lparr>timestamp = time_point_max, val = 100, symbol = ''A''\<rparr>] empty_engine)))"

text \<open>
  A segment store after two \<open>write_batch\<close> calls: G has the overlapping segments
  \<open>[10, 30]\<close> and \<open>[20, 40]\<close>, H has one segment.
\<close>

definition example_disk :: "bytes DiskLayer" where
  "example_disk =
     snd (DiskLayer_write_batch simple_platform
            [\<lparr>timestamp = 40, val = 4, symbol = ''G''\<rparr>, \<lparr>timestamp = 20, val = 2, symbol = ''G''\<rparr>]
       (snd (DiskLayer_write_batch simple_platform
            [\<lparr>timestamp = 10, val = 1, symbol = ''G''\<rparr>, \<lparr>timestamp = 7, val = 7, symbol = ''H''\<rparr>,
             \<lparr>timestamp = 30, val = 3, symbol = ''G''\<rparr>]
          empty_DiskLayer)))"

section \<open>Properties of the standard-library algorithms\<close>

lemma take_lower_bound: "take (lower_bound v t) v = takeWhile (\<lambda>a. timestamp a < t) v"
  by (simp add: lower_bound_def takeWhile_eq_take [symmetric])

lemma drop_lower_bound: "drop (lower_bound v t) v = dropWhile (\<lambda>a. timestamp a < t) v"
  by (simp add: lower_bound_def dropWhile_eq_drop [symmetric])

lemma lower_bound_le: "lower_bound v t \<le> length v"
  by (simp add: lower_bound_def length_takeWhile_le)

lemma takeWhile_less_sorted:
  "sorted (map timestamp v) \<Longrightarrow> takeWhile (\<lambda>a. timestamp a < t) v = filter (\<lambda>a. timestamp a < t) v"
  by (induction v) (auto intro!: filter_False[symmetric] simp: )

lemma dropWhile_less_sorted:
  "sorted (map timestamp v) \<Longrightarrow> dropWhile (\<lambda>a. timestamp a < t) v = filter (\<lambda>a. \<not> timestamp a < t) v"
  by (induction v) (auto intro!: filter_True[symmetric])

lemma takeWhile_le_sorted:
  "sorted (map timestamp v) \<Longrightarrow> takeWhile (\<lambda>a. \<not> t < timestamp a) v = filter (\<lambda>a. \<not> t < timestamp a) v"
  by (induction v) (auto intro!: filter_False[symmetric] simp: )

lemma strictly_increasing_sorted: "strictly_increasing ps \<Longrightarrow> sorted (map timestamp ps)"
  unfolding strictly_increasing_def
  by (simp add: strict_sorted_iff)

lemma lower_bound_hit:
  assumes "sorted (map timestamp v)"
  shows "(lower_bound v t < length v \<and> timestamp (v ! lower_bound v t) = t) \<longleftrightarrow> t \<in> timestamp ` set v"
proof
  assume h: "lower_bound v t < length v \<and> timestamp (v ! lower_bound v t) = t"
  then show "t \<in> timestamp ` set v" by (metis imageI nth_mem)
next
  assume "t \<in> timestamp ` set v"
  then obtain p where p: "p \<in> set v" "timestamp p = t" by auto
  have d: "dropWhile (\<lambda>a. timestamp a < t) v \<noteq> []" using p by auto
  then have lt: "lower_bound v t < length v"
    by (metis drop_lower_bound drop_eq_Nil not_le)
  have "v ! lower_bound v t = hd (dropWhile (\<lambda>a. timestamp a < t) v)"
    using lt by (simp add: lower_bound_def hd_dropWhile nth_length_takeWhile hd_drop_conv_nth dropWhile_eq_drop)
  moreover have "\<not> timestamp (hd (dropWhile (\<lambda>a. timestamp a < t) v)) < t"
    using d hd_dropWhile by blast
  moreover have "hd (dropWhile (\<lambda>a. timestamp a < t) v) \<in> set (filter (\<lambda>a. \<not> timestamp a < t) v)"
    using d dropWhile_less_sorted[OF assms] by (metis list.set_sel(1))
  moreover have "\<forall>q \<in> set (dropWhile (\<lambda>a. timestamp a < t) v). timestamp (hd (dropWhile (\<lambda>a. timestamp a < t) v)) \<le> timestamp q"
  proof -
    have "sorted (map timestamp (dropWhile (\<lambda>a. timestamp a < t) v))"
      using assms by (metis sorted_wrt_dropWhile sorted_wrt_map)
    then show ?thesis using d
      by (cases "dropWhile (\<lambda>a. timestamp a < t) v") auto
  qed
  moreover have "p \<in> set (dropWhile (\<lambda>a. timestamp a < t) v)"
    using p dropWhile_less_sorted[OF assms] by simp
  ultimately show "lower_bound v t < length v \<and> timestamp (v ! lower_bound v t) = t"
    using lt p by fastforce
qed

lemma insert_sorted_position:
  assumes "strictly_increasing v" "t \<notin> timestamp ` set v" "timestamp p = t"
  shows "strictly_increasing (take (lower_bound v t) v @ [p] @ drop (lower_bound v t) v)"
proof -
  have s: "sorted (map timestamp v)" using assms(1) by (rule strictly_increasing_sorted)
  have a: "\<forall>x \<in> set (takeWhile (\<lambda>a. timestamp a < t) v). timestamp x < t"
    by (metis set_takeWhileD)
  have b: "\<forall>x \<in> set (dropWhile (\<lambda>a. timestamp a < t) v). t < timestamp x"
    using dropWhile_less_sorted[OF s] assms(2) by force
  have "sorted_wrt (<) (map timestamp (takeWhile (\<lambda>a. timestamp a < t) v))"
       "sorted_wrt (<) (map timestamp (dropWhile (\<lambda>a. timestamp a < t) v))"
    using assms(1) unfolding strictly_increasing_def
    by (simp_all add: sorted_wrt_map)
  then show ?thesis using a b assms(3)
    unfolding strictly_increasing_def take_lower_bound drop_lower_bound
    by (fastforce simp: sorted_wrt_append)
qed


section \<open>Properties of the memory buffer\<close>

lemma set_AList_update: "set (AList.update k v al) \<subseteq> insert (k, v) (set al)"
  by (induction al) auto

lemma set_std_merge: "set (std_merge xs ys) = set xs \<union> set ys"
  by (induction xs ys rule: std_merge.induct) auto

lemma mset_std_merge: "mset (std_merge xs ys) = mset xs + mset ys"
  by (induction xs ys rule: std_merge.induct) auto

lemma sorted_std_merge:
  "sorted (map timestamp xs) \<Longrightarrow> sorted (map timestamp ys) \<Longrightarrow> sorted (map timestamp (std_merge xs ys))"
  by (induction xs ys rule: std_merge.induct) (auto simp: set_std_merge)

lemma set_std_unique_subset: "set (std_unique xs) \<subseteq> set xs"
  by (induction xs rule: std_unique.induct) auto

lemma timestamps_std_unique: "timestamp ` set (std_unique xs) = timestamp ` set xs"
  by (induction xs rule: std_unique.induct) auto

lemma std_unique_strict:
  "sorted (map timestamp xs) \<Longrightarrow> strictly_increasing (std_unique xs)"
proof (induction xs rule: std_unique.induct)
  case 1
  then show ?case by (simp add: strictly_increasing_def)
next
  case (2 x)
  then show ?case by (simp add: strictly_increasing_def)
next
  case (3 x y xs)
  show ?case
  proof (cases "timestamp x = timestamp y")
    case True
    with 3 show ?thesis by simp
  next
    case False
    have lt: "timestamp x < timestamp y" using 3(3) False by simp
    have "\<forall>q \<in> set (std_unique (y # xs)). timestamp y \<le> timestamp q"
      using 3(3) set_std_unique_subset[of "y # xs"] by auto
    then have "\<forall>q \<in> set (std_unique (y # xs)). timestamp x < timestamp q"
      using lt by fastforce
    moreover have "strictly_increasing (std_unique (y # xs))" using 3 False by simp
    ultimately show ?thesis using False by (simp add: strictly_increasing_def)
  qed
qed

lemma map_of_M1:
  "M1 m \<Longrightarrow> map_of (symbol_data m) sy = Some sd \<Longrightarrow> strictly_increasing (points sd)"
  unfolding M1_def by (metis map_of_SomeD snd_conv)

lemma M1_points_of: "M1 m \<Longrightarrow> strictly_increasing (points_of m sy)"
  by (auto simp: points_of_def strictly_increasing_def split: option.splits dest: map_of_M1)

lemma get_or_create_lookup:
  "get_or_create_symbol_data sy m = (sd, m') \<Longrightarrow> map_of (symbol_data m') sy = Some sd"
  by (auto simp: get_or_create_symbol_data_def map_add_def split: option.splits)

lemma get_or_create_points:
  "get_or_create_symbol_data sy m = (sd, m') \<Longrightarrow> points sd = points_of m sy"
  by (auto simp: get_or_create_symbol_data_def points_of_def new_SymbolData_def split: option.splits)

lemma get_or_create_points_of:
  "get_or_create_symbol_data sy m = (sd, m') \<Longrightarrow> points_of m' s = points_of m s"
  by (auto simp: get_or_create_symbol_data_def points_of_def new_SymbolData_def map_add_def
      split: option.splits if_splits)

lemma get_or_create_M1:
  "get_or_create_symbol_data sy m = (sd, m') \<Longrightarrow> M1 m \<Longrightarrow> M1 m'"
  by (auto simp: get_or_create_symbol_data_def M1_def new_SymbolData_def strictly_increasing_def
      split: option.splits)

lemma store_M1:
  "M1 m \<Longrightarrow> strictly_increasing (points sd) \<Longrightarrow> M1 (store_symbol_data sy sd m)"
  using set_AList_update[of sy sd "symbol_data m"]
  by (auto simp: M1_def store_symbol_data_def)

lemma points_of_store:
  "points_of (store_symbol_data sy sd m) s = (if s = sy then points sd else points_of m s)"
  by (simp add: points_of_def store_symbol_data_def update_conv')

lemma M1_total_update [simp]: "M1 (m\<lparr>ml_total_points := n\<rparr>) = M1 m"
  by (simp add: M1_def)

lemma points_of_total_update [simp]: "points_of (m\<lparr>ml_total_points := n\<rparr>) s = points_of m s"
  by (simp add: points_of_def)

lemma insert_duplicate:
  assumes "M1 m" "timestamp p \<in> timestamp ` set (points_of m (symbol p))"
  shows "MemoryLayer_insert p m = (False, m)"
proof -
  from assms(2) obtain sd where sd: "map_of (symbol_data m) (symbol p) = Some sd"
    by (cases "map_of (symbol_data m) (symbol p)") (auto simp: points_of_def)
  then have g: "get_or_create_symbol_data (symbol p) m = (sd, m)"
    by (simp add: get_or_create_symbol_data_def)
  have "sorted (map timestamp (points sd))"
    using map_of_M1[OF assms(1) sd] by (rule strictly_increasing_sorted)
  moreover have "timestamp p \<in> timestamp ` set (points sd)"
    using assms(2) sd by (simp add: points_of_def)
  ultimately have "lower_bound (points sd) (timestamp p) < length (points sd) \<and>
      timestamp (points sd ! lower_bound (points sd) (timestamp p)) = timestamp p"
    by (simp add: lower_bound_hit)
  then show ?thesis by (simp add: MemoryLayer_insert_def g)
qed

lemma insert_fresh:
  assumes "M1 m" "timestamp p \<notin> timestamp ` set (points_of m (symbol p))"
  defines "it \<equiv> lower_bound (points_of m (symbol p)) (timestamp p)"
  shows "fst (MemoryLayer_insert p m)"
    and "points_of (snd (MemoryLayer_insert p m)) (symbol p) =
           take it (points_of m (symbol p)) @ [p] @ drop it (points_of m (symbol p))"
    and "s \<noteq> symbol p \<Longrightarrow> points_of (snd (MemoryLayer_insert p m)) s = points_of m s"
    and "M1 (snd (MemoryLayer_insert p m))"
    and "ml_total_points (snd (MemoryLayer_insert p m)) = ml_total_points m + 1"
proof -
  obtain sd m' where g: "get_or_create_symbol_data (symbol p) m = (sd, m')"
    by (cases "get_or_create_symbol_data (symbol p) m")
  have pts: "points sd = points_of m (symbol p)" using g by (rule get_or_create_points)
  have inc: "strictly_increasing (points sd)" using pts M1_points_of[OF assms(1)] by simp
  then have srt: "sorted (map timestamp (points sd))" by (rule strictly_increasing_sorted)
  have nohit: "\<not> (lower_bound (points sd) (timestamp p) < length (points sd) \<and>
      timestamp (points sd ! lower_bound (points sd) (timestamp p)) = timestamp p)"
    using assms(2) pts lower_bound_hit[OF srt, of "timestamp p"] by simp
  have m': "M1 m'" using g assms(1) by (rule get_or_create_M1)
  have tot: "ml_total_points m' = ml_total_points m"
    using g by (auto simp: get_or_create_symbol_data_def split: option.splits)
  let ?new = "take (lower_bound (points sd) (timestamp p)) (points sd) @ [p] @
              drop (lower_bound (points sd) (timestamp p)) (points sd)"
  have res: "MemoryLayer_insert p m =
     (True, (store_symbol_data (symbol p)
               (sd\<lparr>points := ?new, sd_total_points := sd_total_points sd + 1\<rparr>) m')
            \<lparr>ml_total_points := ml_total_points m' + 1\<rparr>)"
    using nohit by (auto simp: MemoryLayer_insert_def g Let_def)
  have new_inc: "strictly_increasing ?new"
    using insert_sorted_position[OF inc _ refl] assms(2) pts by simp
  show "fst (MemoryLayer_insert p m)" by (simp add: res)
  show "points_of (snd (MemoryLayer_insert p m)) (symbol p) =
           take it (points_of m (symbol p)) @ [p] @ drop it (points_of m (symbol p))"
    by (simp add: res points_of_store pts it_def)
  show "s \<noteq> symbol p \<Longrightarrow> points_of (snd (MemoryLayer_insert p m)) s = points_of m s"
    using get_or_create_points_of[OF g] by (simp add: res points_of_store)
  show "M1 (snd (MemoryLayer_insert p m))"
    using store_M1[OF m', of "sd\<lparr>points := ?new, sd_total_points := sd_total_points sd + 1\<rparr>"] new_inc
    by (simp add: res)
  show "ml_total_points (snd (MemoryLayer_insert p m)) = ml_total_points m + 1"
    by (simp add: res tot store_symbol_data_def)
qed

lemma insert_M1: "M1 m \<Longrightarrow> M1 (snd (MemoryLayer_insert p m))"
  by (cases "timestamp p \<in> timestamp ` set (points_of m (symbol p))")
     (simp_all add: insert_duplicate insert_fresh(4))

lemma is_std_sortD:
  "is_std_sort srt \<Longrightarrow> mset (srt xs) = mset xs"
  "is_std_sort srt \<Longrightarrow> sorted (map timestamp (srt xs))"
  by (simp_all add: is_std_sort_def)

lemma insert_group_M1:
  assumes "is_std_sort srt" "M1 m"
  shows "M1 (insert_group srt grp m)"
proof -
  obtain sd m' where g: "get_or_create_symbol_data (fst grp) m = (sd, m')"
    by (cases "get_or_create_symbol_data (fst grp) m")
  have m': "M1 m'" using g assms(2) by (rule get_or_create_M1)
  have "strictly_increasing (points sd)"
    using get_or_create_lookup[OF g] m' by (metis map_of_M1)
  then have "sorted (map timestamp (std_merge (points sd) (srt (snd grp))))"
    using assms(1) by (simp add: sorted_std_merge strictly_increasing_sorted is_std_sortD)
  then have "strictly_increasing (std_unique (std_merge (points sd) (srt (snd grp))))"
    by (rule std_unique_strict)
  then show ?thesis
    using store_M1[OF m'] by (simp add: insert_group_def g Let_def)
qed

lemma fold_insert_group_M1:
  "is_std_sort srt \<Longrightarrow> M1 m \<Longrightarrow> M1 (fold (insert_group srt) gs m)"
  by (induction gs arbitrary: m) (simp_all add: insert_group_M1)

lemma insert_batch_M1:
  "is_std_sort srt \<Longrightarrow> M1 m \<Longrightarrow> M1 (snd (MemoryLayer_insert_batch srt ps m))"
  by (simp add: MemoryLayer_insert_batch_def fold_insert_group_M1)

lemma new_MemoryLayer_M1: "M1 (new_MemoryLayer mb)"
  by (simp add: M1_def new_MemoryLayer_def)

lemma run_mem_ops_M1:
  "is_std_sort srt \<Longrightarrow> M1 m \<Longrightarrow> M1 (run_mem_ops srt ops m)"
  unfolding run_mem_ops_def
proof (induction ops arbitrary: m)
  case Nil
  then show ?case by simp
next
  case (Cons a ops)
  then show ?case by (cases a) (simp_all add: insert_M1 insert_batch_M1)
qed

lemma get_range_slice:
  "MemoryLayer_get_range m sy start end' =
     takeWhile (\<lambda>a. \<not> end' < timestamp a) (dropWhile (\<lambda>a. timestamp a < start) (points_of m sy))"
  by (simp add: MemoryLayer_get_range_def points_of_def Let_def drop_lower_bound upper_bound_def
      takeWhile_eq_take [symmetric] split: option.splits)

lemma get_range_filter:
  assumes "M1 m"
  shows "MemoryLayer_get_range m sy start end' =
     filter (\<lambda>p. start \<le> timestamp p \<and> timestamp p \<le> end') (points_of m sy)"
proof -
  have s: "sorted (map timestamp (points_of m sy))"
    using M1_points_of[OF assms] by (rule strictly_increasing_sorted)
  then have "sorted (map timestamp (filter (\<lambda>a. \<not> timestamp a < start) (points_of m sy)))"
    by (metis sorted_wrt_filter sorted_wrt_map)
  then have "takeWhile (\<lambda>a. \<not> end' < timestamp a) (filter (\<lambda>a. \<not> timestamp a < start) (points_of m sy))
      = filter (\<lambda>a. \<not> end' < timestamp a) (filter (\<lambda>a. \<not> timestamp a < start) (points_of m sy))"
    by (rule takeWhile_le_sorted)
  then show ?thesis
    unfolding get_range_slice dropWhile_less_sorted[OF s]
    by (simp add: not_less conj_commute)
qed

lemma get_range_strict:
  "M1 m \<Longrightarrow> strictly_increasing (MemoryLayer_get_range m sy start end')"
  using M1_points_of[of m sy]
  by (simp add: get_range_filter strictly_increasing_def sorted_wrt_map sorted_wrt_filter)

lemma stable_sort_is_std_sort: "is_std_sort stable_sort_points"
  by (simp add: is_std_sort_def stable_sort_points_def)

lemma sorted_split_filter:
  assumes "sorted (map timestamp v)"
  shows "take (lower_bound v t) v = filter (\<lambda>a. timestamp a < t) v"
    and "drop (lower_bound v t) v = filter (\<lambda>a. \<not> timestamp a < t) v"
  using assms
  by (simp_all add: take_lower_bound drop_lower_bound takeWhile_less_sorted dropWhile_less_sorted)

lemma clear_cache_M1: "M1 (MemoryLayer_clear_cache m)"
  by (auto simp: M1_def MemoryLayer_clear_cache_def strictly_increasing_def)

lemma example_memory_M1: "M1 example_memory"
  by (simp add: M1_def example_memory_def strictly_increasing_def)

text \<open>
  \<^bold>\<open>C4.\<close> For every symbol and every finite sequence of \<open>insert\<close> and \<open>insert_batch\<close>
  operations applied to a new memory buffer, the sequence that
  \<open>get_range(symbol, MIN, MAX)\<close> returns is strictly increasing in timestamp: no
  duplicates and no ties.  This holds whatever \<open>std::sort\<close> does with equal timestamps.
\<close>

theorem memory_get_range_strictly_increasing:
  assumes "is_std_sort srt"
  shows "sorted_wrt (<) (map timestamp
           (MemoryLayer_get_range (run_mem_ops srt ops (new_MemoryLayer mb)) sy
              time_point_min time_point_max))"
proof -
  have "M1 (run_mem_ops srt ops (new_MemoryLayer mb))"
    using assms new_MemoryLayer_M1 by (rule run_mem_ops_M1)
  then show ?thesis
    using get_range_strict by (simp add: strictly_increasing_def)
qed

theorem memory_get_range_strictly_increasing_witness:
  "is_std_sort stable_sort_points \<and>
   sorted_wrt (<) (map timestamp
     (MemoryLayer_get_range
        (run_mem_ops stable_sort_points
           [Insert \<lparr>timestamp = 30, val = 1, symbol = ''AAPL''\<rparr>,
            InsertBatch [\<lparr>timestamp = 20, val = 2, symbol = ''AAPL''\<rparr>,
                         \<lparr>timestamp = 30, val = 3, symbol = ''AAPL''\<rparr>,
                         \<lparr>timestamp = 20, val = 4, symbol = ''AAPL''\<rparr>,
                         \<lparr>timestamp = 5, val = 5, symbol = ''MSFT''\<rparr>],
            Insert \<lparr>timestamp = 20, val = 6, symbol = ''AAPL''\<rparr>,
            Insert \<lparr>timestamp = 10, val = 7, symbol = ''AAPL''\<rparr>]
           (new_MemoryLayer 64))
        ''AAPL'' time_point_min time_point_max)) \<and>
   MemoryLayer_get_range
        (run_mem_ops stable_sort_points
           [Insert \<lparr>timestamp = 30, val = 1, symbol = ''AAPL''\<rparr>,
            InsertBatch [\<lparr>timestamp = 20, val = 2, symbol = ''AAPL''\<rparr>,
                         \<lparr>timestamp = 30, val = 3, symbol = ''AAPL''\<rparr>,
                         \<lparr>timestamp = 20, val = 4, symbol = ''AAPL''\<rparr>,
                         \<lparr>timestamp = 5, val = 5, symbol = ''MSFT''\<rparr>],
            Insert \<lparr>timestamp = 20, val = 6, symbol = ''AAPL''\<rparr>,
            Insert \<lparr>timestamp = 10, val = 7, symbol = ''AAPL''\<rparr>]
           (new_MemoryLayer 64))
        ''AAPL'' time_point_min time_point_max
     = [\<lparr>timestamp = 10, val = 7, symbol = ''AAPL''\<rparr>,
        \<lparr>timestamp = 20, val = 2, symbol = ''AAPL''\<rparr>,
        \<lparr>timestamp = 30, val = 1, symbol = ''AAPL''\<rparr>]"
proof (intro conjI)
  show h: "is_std_sort stable_sort_points" by (rule stable_sort_is_std_sort)
  show "sorted_wrt (<) (map timestamp
     (MemoryLayer_get_range
        (run_mem_ops stable_sort_points
           [Insert \<lparr>timestamp = 30, val = 1, symbol = ''AAPL''\<rparr>,
            InsertBatch [\<lparr>timestamp = 20, val = 2, symbol = ''AAPL''\<rparr>,
                         \<lparr>timestamp = 30, val = 3, symbol = ''AAPL''\<rparr>,
                         \<lparr>timestamp = 20, val = 4, symbol = ''AAPL''\<rparr>,
                         \<lparr>timestamp = 5, val = 5, symbol = ''MSFT''\<rparr>],
            Insert \<lparr>timestamp = 20, val = 6, symbol = ''AAPL''\<rparr>,
            Insert \<lparr>timestamp = 10, val = 7, symbol = ''AAPL''\<rparr>]
           (new_MemoryLayer 64))
        ''AAPL'' time_point_min time_point_max))"
    by (rule memory_get_range_strictly_increasing [OF h])
  show "MemoryLayer_get_range
        (run_mem_ops stable_sort_points
           [Insert \<lparr>timestamp = 30, val = 1, symbol = ''AAPL''\<rparr>,
            InsertBatch [\<lparr>timestamp = 20, val = 2, symbol = ''AAPL''\<rparr>,
                         \<lparr>timestamp = 30, val = 3, symbol = ''AAPL''\<rparr>,
                         \<lparr>timestamp = 20, val = 4, symbol = ''AAPL''\<rparr>,
                         \<lparr>timestamp = 5, val = 5, symbol = ''MSFT''\<rparr>],
            Insert \<lparr>timestamp = 20, val = 6, symbol = ''AAPL''\<rparr>,
            Insert \<lparr>timestamp = 10, val = 7, symbol = ''AAPL''\<rparr>]
           (new_MemoryLayer 64))
        ''AAPL'' time_point_min time_point_max
     = [\<lparr>timestamp = 10, val = 7, symbol = ''AAPL''\<rparr>,
        \<lparr>timestamp = 20, val = 2, symbol = ''AAPL''\<rparr>,
        \<lparr>timestamp = 30, val = 1, symbol = ''AAPL''\<rparr>]"
    by code_simp
qed

text \<open>
  \<^bold>\<open>C5.\<close> On a buffer that satisfies M1: for a point whose timestamp already exists for
  its symbol, \<open>insert\<close> returns \<open>false\<close> and leaves the buffer as it is, and the
  engine's \<open>write_point\<close> returns \<open>false\<close> and leaves the whole engine as it is (the
  total point counter is not incremented and nothing is flushed); for a point whose
  timestamp is new for its symbol, \<open>insert\<close> returns \<open>true\<close> and the symbol's sequence
  is the earlier points, the new point, the later points, which is strictly increasing.
\<close>

theorem insert_duplicate_rejected_new_sorted:
  assumes "M1 (memory_layer e)"
  shows "(timestamp p \<in> timestamp ` set (points_of (memory_layer e) (symbol p)) \<longrightarrow>
            MemoryLayer_insert p (memory_layer e) = (False, memory_layer e) \<and>
            StorageEngine_write_point P p e = (Inr False, e))
       \<and> (timestamp p \<notin> timestamp ` set (points_of (memory_layer e) (symbol p)) \<longrightarrow>
            fst (MemoryLayer_insert p (memory_layer e)) \<and>
            points_of (snd (MemoryLayer_insert p (memory_layer e))) (symbol p) =
              filter (\<lambda>a. timestamp a < timestamp p) (points_of (memory_layer e) (symbol p)) @ [p] @
              filter (\<lambda>a. timestamp p < timestamp a) (points_of (memory_layer e) (symbol p)) \<and>
            strictly_increasing (points_of (snd (MemoryLayer_insert p (memory_layer e))) (symbol p)))"
proof (intro conjI impI)
  assume dup: "timestamp p \<in> timestamp ` set (points_of (memory_layer e) (symbol p))"
  show ins: "MemoryLayer_insert p (memory_layer e) = (False, memory_layer e)"
    using assms dup by (rule insert_duplicate)
  show "StorageEngine_write_point P p e = (Inr False, e)"
    by (simp add: StorageEngine_write_point_def ins)
next
  assume new: "timestamp p \<notin> timestamp ` set (points_of (memory_layer e) (symbol p))"
  show "fst (MemoryLayer_insert p (memory_layer e))"
    using assms new by (rule insert_fresh(1))
  have s: "sorted (map timestamp (points_of (memory_layer e) (symbol p)))"
    using M1_points_of[OF assms] by (rule strictly_increasing_sorted)
  have "filter (\<lambda>a. \<not> timestamp a < timestamp p) (points_of (memory_layer e) (symbol p))
        = filter (\<lambda>a. timestamp p < timestamp a) (points_of (memory_layer e) (symbol p))"
  proof (rule filter_cong[OF refl])
    fix x assume "x \<in> set (points_of (memory_layer e) (symbol p))"
    then have "timestamp x \<noteq> timestamp p" using new by (metis imageI)
    then show "(\<not> timestamp x < timestamp p) = (timestamp p < timestamp x)" by linarith
  qed
  then show "points_of (snd (MemoryLayer_insert p (memory_layer e))) (symbol p) =
              filter (\<lambda>a. timestamp a < timestamp p) (points_of (memory_layer e) (symbol p)) @ [p] @
              filter (\<lambda>a. timestamp p < timestamp a) (points_of (memory_layer e) (symbol p))"
    using insert_fresh(2)[OF assms new] sorted_split_filter[OF s, of "timestamp p"] by simp
  show "strictly_increasing (points_of (snd (MemoryLayer_insert p (memory_layer e))) (symbol p))"
    using insert_fresh(4)[OF assms new] by (rule M1_points_of)
qed

theorem insert_duplicate_rejected_new_sorted_witness:
  "M1 (memory_layer example_engine) \<and>
   MemoryLayer_insert \<lparr>timestamp = 20, val = 9, symbol = ''AAPL''\<rparr> (memory_layer example_engine)
     = (False, memory_layer example_engine) \<and>
   StorageEngine_write_point simple_platform \<lparr>timestamp = 20, val = 9, symbol = ''AAPL''\<rparr>
     example_engine = (Inr False, example_engine) \<and>
   fst (MemoryLayer_insert \<lparr>timestamp = 25, val = 9, symbol = ''AAPL''\<rparr> (memory_layer example_engine)) \<and>
   points_of (snd (MemoryLayer_insert \<lparr>timestamp = 25, val = 9, symbol = ''AAPL''\<rparr>
                     (memory_layer example_engine))) ''AAPL''
     = [\<lparr>timestamp = 10, val = 7, symbol = ''AAPL''\<rparr>,
        \<lparr>timestamp = 20, val = 2, symbol = ''AAPL''\<rparr>,
        \<lparr>timestamp = 25, val = 9, symbol = ''AAPL''\<rparr>,
        \<lparr>timestamp = 30, val = 1, symbol = ''AAPL''\<rparr>]"
proof -
  have m: "memory_layer example_engine = example_memory"
    by (simp add: example_engine_def)
  have h: "M1 (memory_layer example_engine)"
    by (simp add: m example_memory_M1)
  have pts: "points_of example_memory ''AAPL'' =
      [\<lparr>timestamp = 10, val = 7, symbol = ''AAPL''\<rparr>,
       \<lparr>timestamp = 20, val = 2, symbol = ''AAPL''\<rparr>,
       \<lparr>timestamp = 30, val = 1, symbol = ''AAPL''\<rparr>]"
    by (simp add: points_of_def example_memory_def)
  show ?thesis
    using h
      insert_duplicate_rejected_new_sorted
        [OF h, of "\<lparr>timestamp = 20, val = 9, symbol = ''AAPL''\<rparr>" simple_platform]
      insert_duplicate_rejected_new_sorted
        [OF h, of "\<lparr>timestamp = 25, val = 9, symbol = ''AAPL''\<rparr>" simple_platform]
    by (simp add: m pts)
qed

text \<open>
  \<^bold>\<open>C7.\<close> On a buffer that satisfies M1, for every symbol and every \<open>start \<le> end\<close>,
  \<open>get_range\<close> returns exactly the buffered points of the symbol with
  \<open>start \<le> timestamp \<le> end\<close>, in the buffer's order (for an unknown symbol both sides
  are empty).
\<close>

theorem get_range_closed_interval:
  assumes "M1 m" and "start \<le> end'"
  shows "MemoryLayer_get_range m sy start end' =
           filter (\<lambda>p. start \<le> timestamp p \<and> timestamp p \<le> end') (points_of m sy)"
  using assms(1) by (rule get_range_filter)

theorem get_range_closed_interval_witness:
  "M1 example_memory \<and> (10::int) \<le> 20 \<and>
   MemoryLayer_get_range example_memory ''AAPL'' 10 20 =
     [\<lparr>timestamp = 10, val = 7, symbol = ''AAPL''\<rparr>, \<lparr>timestamp = 20, val = 2, symbol = ''AAPL''\<rparr>]"
proof -
  have le: "(10::int) \<le> 20" by simp
  have pts: "points_of example_memory ''AAPL'' =
      [\<lparr>timestamp = 10, val = 7, symbol = ''AAPL''\<rparr>,
       \<lparr>timestamp = 20, val = 2, symbol = ''AAPL''\<rparr>,
       \<lparr>timestamp = 30, val = 1, symbol = ''AAPL''\<rparr>]"
    by (simp add: points_of_def example_memory_def)
  show ?thesis
    using example_memory_M1 get_range_closed_interval [OF example_memory_M1 le, of "''AAPL''"]
    by (simp add: pts)
qed

section \<open>The index mutex\<close>

text \<open>The locks of a thread that does not own the mutex exclusively are granted.\<close>

lemma lock_shared_granted [simp]:
  "lock_shared P Unowned = Inr ()"
  "lock_shared P OwnsShared = Inr ()"
  by (simp_all add: lock_shared_def)

lemma lock_unique_granted [simp]: "lock_unique P Unowned = Inr ()"
  by (simp add: lock_unique_def)

section \<open>Flushing\<close>

lemma points_of_unknown: "sy \<notin> set (MemoryLayer_get_symbols m) \<Longrightarrow> points_of m sy = []"
  by (simp add: points_of_def MemoryLayer_get_symbols_def map_of_eq_None_iff[THEN iffD2])

lemma get_range_empty_points:
  "points_of m sy = [] \<Longrightarrow> MemoryLayer_get_range m sy start end' = []"
  by (simp add: get_range_slice)

lemma buffer_empty_points_of: "buffer_empty m \<Longrightarrow> points_of m sy = []"
  by (cases "sy \<in> set (MemoryLayer_get_symbols m)") (auto simp: buffer_empty_def points_of_unknown)

lemma buffer_empty_points_to_flush: "buffer_empty m \<Longrightarrow> points_to_flush m = []"
  by (simp add: points_to_flush_def get_range_empty_points buffer_empty_points_of)

lemma points_of_clear_cache: "points_of (MemoryLayer_clear_cache m) sy = []"
  by (induction "symbol_data m" arbitrary: m)
     (auto simp: points_of_def MemoryLayer_clear_cache_def map_of_map split: option.splits)

lemma clear_cache_empty: "buffer_empty (MemoryLayer_clear_cache m)"
  by (simp add: buffer_empty_def points_of_clear_cache)

text \<open>Over the full range \<open>get_range\<close> returns all the points of a symbol.\<close>

lemma get_range_full:
  assumes "\<forall>p \<in> set (points_of m sy). valid_point p"
  shows "MemoryLayer_get_range m sy time_point_min time_point_max = points_of m sy"
proof -
  have a: "dropWhile (\<lambda>a. timestamp a < time_point_min) (points_of m sy) = points_of m sy"
    using assms by (cases "points_of m sy") (auto simp: valid_point_def)
  have b: "takeWhile (\<lambda>a. \<not> time_point_max < timestamp a) (points_of m sy) = points_of m sy"
    using assms by (intro takeWhile_eq_all_conv[THEN iffD2]) (auto simp: valid_point_def)
  show ?thesis by (simp add: get_range_slice a b)
qed

lemma valid_memory_points_of:
  "valid_memory m \<Longrightarrow> p \<in> set (points_of m sy) \<Longrightarrow> valid_point p"
  by (cases "sy \<in> set (MemoryLayer_get_symbols m)") (auto simp: valid_memory_def points_of_unknown)

lemma points_to_flush_valid:
  assumes "valid_memory m"
  shows "points_to_flush m = concat (map (points_of m) (MemoryLayer_get_symbols m))"
  using valid_memory_points_of[OF assms]
  by (simp add: points_to_flush_def get_range_full cong: map_cong)

lemma points_to_flush_empty_iff:
  assumes "valid_memory m"
  shows "points_to_flush m = [] \<longleftrightarrow> buffer_empty m"
  by (auto simp: points_to_flush_valid[OF assms] buffer_empty_def)

lemma write_batch_never_false: "fst (DiskLayer_write_batch P pts d) \<noteq> Inr False"
  by (auto simp: DiskLayer_write_batch_def split: prod.splits sum.splits)

lemma flush_never_false: "fst (StorageEngine_flush P e) \<noteq> Inr False"
  using write_batch_never_false[of P "points_to_flush (memory_layer e)" "disk_layer e"]
  by (auto simp: StorageEngine_flush_def split: prod.splits sum.splits)

lemma example_engine_valid: "valid_memory (memory_layer example_engine)"
  by code_simp

text \<open>
  \<^bold>\<open>C10.\<close> For every engine whose memory buffer is empty, \<open>flush()\<close> returns \<open>true\<close> and
  leaves the engine, and so the segment store, as it is: no segment file is written and
  no entry is added to the segment index.
\<close>

theorem flush_empty_buffer_is_noop:
  assumes "buffer_empty (memory_layer e)"
  shows "StorageEngine_flush P e = (Inr True, e) \<and>
         files (disk_layer (snd (StorageEngine_flush P e))) = files (disk_layer e) \<and>
         metadata (disk_layer (snd (StorageEngine_flush P e))) = metadata (disk_layer e)"
  using assms by (simp add: StorageEngine_flush_def buffer_empty_points_to_flush)

theorem flush_empty_buffer_is_noop_witness:
  "buffer_empty (memory_layer (snd (StorageEngine_flush simple_platform example_engine))) \<and>
   StorageEngine_flush simple_platform (snd (StorageEngine_flush simple_platform example_engine))
     = (Inr True, snd (StorageEngine_flush simple_platform example_engine)) \<and>
   map fst (files (disk_layer (snd (StorageEngine_flush simple_platform example_engine))))
     = [''AAPL_0.seg'', ''MSFT_0.seg'']"
proof -
  have h: "buffer_empty (memory_layer (snd (StorageEngine_flush simple_platform example_engine)))"
    by code_simp
  have f: "map fst (files (disk_layer (snd (StorageEngine_flush simple_platform example_engine))))
     = [''AAPL_0.seg'', ''MSFT_0.seg'']"
    by code_simp
  show ?thesis
    using h f flush_empty_buffer_is_noop [OF h, of simple_platform] by simp
qed

text \<open>
  \<^bold>\<open>C3\<close> as stated fails: when the disk write fails, \<open>flush()\<close> does not return \<open>false\<close>.
  \<open>DiskLayer::write_batch\<close> returns \<open>true\<close> or throws, and \<open>flush\<close> does not catch.
  On a platform where no file can be created, flushing the example engine throws the
  \<open>runtime_error\<close> of \<open>write_segment\<close>; the buffer is intact.
\<close>

theorem flush_failure_counterexample:
  "StorageEngine_flush readonly_platform example_engine =
     (Inl (RuntimeError ''Failed to create segment file: AAPL_0.seg''), example_engine) \<and>
   fst (StorageEngine_flush readonly_platform example_engine) \<noteq> Inr False"
  by code_simp

text \<open>
  \<^bold>\<open>C3, amended.\<close> For every engine state whose buffered timestamps are 64-bit values:
  if \<open>flush()\<close> returns, it returns \<open>true\<close> and the memory buffer is empty afterwards,
  and either it was empty before or the disk write of the collected points returned
  \<open>true\<close>; if the disk write throws, \<open>flush()\<close> throws the same exception and the memory
  buffer is what it was before the call.  \<open>flush()\<close> never returns \<open>false\<close>.
\<close>

theorem flush_clears_or_throws:
  assumes "valid_memory (memory_layer e)"
  shows "case StorageEngine_flush P e of
           (Inr ok, e') \<Rightarrow>
              ok \<and> buffer_empty (memory_layer e') \<and>
              (buffer_empty (memory_layer e) \<or>
               fst (DiskLayer_write_batch P (points_to_flush (memory_layer e)) (disk_layer e)) = Inr True)
         | (Inl err, e') \<Rightarrow>
              memory_layer e' = memory_layer e \<and>
              fst (DiskLayer_write_batch P (points_to_flush (memory_layer e)) (disk_layer e)) = Inl err"
proof (cases "points_to_flush (memory_layer e) = []")
  case True
  then have "buffer_empty (memory_layer e)" using assms by (simp add: points_to_flush_empty_iff)
  then show ?thesis using True by (simp add: StorageEngine_flush_def)
next
  case False
  obtain r d' where w: "DiskLayer_write_batch P (points_to_flush (memory_layer e)) (disk_layer e) = (r, d')"
    by (cases "DiskLayer_write_batch P (points_to_flush (memory_layer e)) (disk_layer e)")
  show ?thesis
  proof (cases r)
    case (Inl err)
    then show ?thesis using False w by (simp add: StorageEngine_flush_def)
  next
    case (Inr ok)
    then have "ok"
      using write_batch_never_false[of P "points_to_flush (memory_layer e)" "disk_layer e"] w
      by simp
    then show ?thesis using False w Inr by (simp add: StorageEngine_flush_def clear_cache_empty)
  qed
qed

theorem flush_clears_or_throws_witness:
  "valid_memory (memory_layer example_engine) \<and>
   fst (StorageEngine_flush simple_platform example_engine) = Inr True \<and>
   buffer_empty (memory_layer (snd (StorageEngine_flush simple_platform example_engine))) \<and>
   fst (StorageEngine_flush readonly_platform example_engine)
     = Inl (RuntimeError ''Failed to create segment file: AAPL_0.seg'') \<and>
   memory_layer (snd (StorageEngine_flush readonly_platform example_engine))
     = memory_layer example_engine"
proof -
  have ok: "fst (StorageEngine_flush simple_platform example_engine) = Inr True"
    by code_simp
  have bad: "fst (StorageEngine_flush readonly_platform example_engine)
     = Inl (RuntimeError ''Failed to create segment file: AAPL_0.seg'')"
    by code_simp
  show ?thesis
    using example_engine_valid ok bad
      flush_clears_or_throws [OF example_engine_valid, of simple_platform]
      flush_clears_or_throws [OF example_engine_valid, of readonly_platform]
    by (auto split: prod.splits sum.splits)
qed

section \<open>Statistics\<close>

lemma flush_counters:
  "cache_hits (snd (StorageEngine_flush P e)) = cache_hits e"
  "cache_misses (snd (StorageEngine_flush P e)) = cache_misses e"
  by (auto simp: StorageEngine_flush_def split: prod.splits sum.splits)

lemma write_point_counters:
  "cache_hits (snd (StorageEngine_write_point P p e)) = cache_hits e"
  "cache_misses (snd (StorageEngine_write_point P p e)) = cache_misses e"
  by (auto simp: StorageEngine_write_point_def Let_def flush_counters split: prod.splits bool.splits)

lemma write_batch_counters:
  "cache_hits (snd (StorageEngine_write_batch P ps e)) = cache_hits e"
  "cache_misses (snd (StorageEngine_write_batch P ps e)) = cache_misses e"
  by (auto simp: StorageEngine_write_batch_def Let_def flush_counters split: prod.splits bool.splits)

lemma optimize_counters:
  "cache_hits (snd (StorageEngine_optimize P e)) = cache_hits e"
  "cache_misses (snd (StorageEngine_optimize P e)) = cache_misses e"
  using flush_counters[of P e]
  by (auto simp: StorageEngine_optimize_def split: prod.splits sum.splits)

lemma apply_engine_op_counters:
  "cache_hits (apply_engine_op P opr e) = cache_hits e"
  "cache_misses (apply_engine_op P opr e) = cache_misses e"
  by (cases opr; simp add: flush_counters write_point_counters write_batch_counters optimize_counters)+

lemma run_engine_counters:
  "cache_hits (run_engine P ops e) = cache_hits e \<and>
   cache_misses (run_engine P ops e) = cache_misses e"
  by (induction ops arbitrary: e) (simp_all add: apply_engine_op_counters)

text \<open>
  \<^bold>\<open>C9.\<close> For every state that an engine reaches from its constructor by any sequence
  of its public operations, whether they return or throw, \<open>get_stats()\<close> returns
  \<open>cache_hits = 0\<close>, \<open>cache_misses = 0\<close> and \<open>cache_hit_ratio = 0.0\<close>: no operation writes
  the two counters.
\<close>

theorem stats_cache_counters_zero:
  assumes "new_StorageEngine P c regular others = Inr e0"
  shows "stats_cache_hits (StorageEngine_get_stats P (run_engine P ops e0)) = 0 \<and>
         stats_cache_misses (StorageEngine_get_stats P (run_engine P ops e0)) = 0 \<and>
         cache_hit_ratio (StorageEngine_get_stats P (run_engine P ops e0)) = 0"
proof -
  have "cache_hits e0 = 0" "cache_misses e0 = 0"
    using assms by (auto simp: new_StorageEngine_def split: sum.splits)
  then show ?thesis
    using run_engine_counters[of P ops e0]
    by (simp add: StorageEngine_get_stats_def get_cache_hit_ratio_def)
qed

theorem stats_cache_counters_zero_witness:
  "new_StorageEngine simple_platform example_config [] [] = Inr empty_engine \<and>
   stats_cache_hits (StorageEngine_get_stats simple_platform
     (run_engine simple_platform
        [WritePoint \<lparr>timestamp = 1, val = 1, symbol = ''A''\<rparr>, Flush,
         WriteBatch [\<lparr>timestamp = 1, val = 2, symbol = ''A''\<rparr>,
                     \<lparr>timestamp = 2, val = 2, symbol = ''A''\<rparr>],
         ReadRange ''A'' 0 5, GetLatest ''A'', Optimize, GetStats] empty_engine)) = 0 \<and>
   stats_cache_misses (StorageEngine_get_stats simple_platform
     (run_engine simple_platform
        [WritePoint \<lparr>timestamp = 1, val = 1, symbol = ''A''\<rparr>, Flush,
         WriteBatch [\<lparr>timestamp = 1, val = 2, symbol = ''A''\<rparr>,
                     \<lparr>timestamp = 2, val = 2, symbol = ''A''\<rparr>],
         ReadRange ''A'' 0 5, GetLatest ''A'', Optimize, GetStats] empty_engine)) = 0 \<and>
   cache_hit_ratio (StorageEngine_get_stats simple_platform
     (run_engine simple_platform
        [WritePoint \<lparr>timestamp = 1, val = 1, symbol = ''A''\<rparr>, Flush,
         WriteBatch [\<lparr>timestamp = 1, val = 2, symbol = ''A''\<rparr>,
                     \<lparr>timestamp = 2, val = 2, symbol = ''A''\<rparr>],
         ReadRange ''A'' 0 5, GetLatest ''A'', Optimize, GetStats] empty_engine)) = 0 \<and>
   stats_total_points (StorageEngine_get_stats simple_platform
     (run_engine simple_platform
        [WritePoint \<lparr>timestamp = 1, val = 1, symbol = ''A''\<rparr>, Flush,
         WriteBatch [\<lparr>timestamp = 1, val = 2, symbol = ''A''\<rparr>,
                     \<lparr>timestamp = 2, val = 2, symbol = ''A''\<rparr>],
         ReadRange ''A'' 0 5, GetLatest ''A'', Optimize, GetStats] empty_engine)) = 3"
proof -
  have h: "new_StorageEngine simple_platform example_config [] [] = Inr empty_engine"
    by code_simp
  have t: "stats_total_points (StorageEngine_get_stats simple_platform
     (run_engine simple_platform
        [WritePoint \<lparr>timestamp = 1, val = 1, symbol = ''A''\<rparr>, Flush,
         WriteBatch [\<lparr>timestamp = 1, val = 2, symbol = ''A''\<rparr>,
                     \<lparr>timestamp = 2, val = 2, symbol = ''A''\<rparr>],
         ReadRange ''A'' 0 5, GetLatest ''A'', Optimize, GetStats] empty_engine)) = 3"
    by code_simp
  show ?thesis
    using h t stats_cache_counters_zero [OF h] by (simp del: run_engine.simps)
qed

section \<open>The startup scan\<close>

lemma extension_example: "extension ''AAPL_abc_def.dat'' = ''.dat''"
  by code_simp

lemma stem_example: "stem ''AAPL_abc_def.dat'' = ''AAPL_abc_def''"
  by code_simp

lemma find_char_example: "find_char ''AAPL_abc_def'' CHR ''_'' = Some 4"
  by code_simp

lemma rfind_char_example: "rfind_char ''AAPL_abc_def'' CHR ''_'' = Some 8"
  by code_simp

lemma substr_example: "substr ''AAPL_abc_def'' 5 (of_nat 8 - of_nat 4 - 1) = ''abc''"
  by code_simp

lemma stoll_example: "stoll ''abc'' = Inl (InvalidArgument ''stoll'')"
  by code_simp

lemma load_non_numeric:
  "load_existing_segments P ((''AAPL_abc_def.dat'', Some f) # rest) md
     = Inl (InvalidArgument ''stoll'')"
  by (simp add: extension_example stem_example find_char_example rfind_char_example
      substr_example stoll_example Let_def del: of_nat_numeral)

text \<open>
  \<^bold>\<open>C8\<close> does not hold of the code.  A regular file named \<open>AAPL_abc_def.dat\<close> has the
  extension and the two underscores the scan looks for, so it is not skipped;
  \<open>std::stoll("abc")\<close> throws \<open>std::invalid_argument\<close>, nothing catches it, and the scan
  and the constructor of the segment store end with that exception, on every platform,
  for every content of the file and whatever else the directory holds.
\<close>

theorem scan_throws_on_non_numeric_timestamp:
  "load_existing_segments P ((''AAPL_abc_def.dat'', Some f) # rest) md
     = Inl (InvalidArgument ''stoll'') \<and>
   new_DiskLayer P c ((''AAPL_abc_def.dat'', f) # regular) others
     = Inl (InvalidArgument ''stoll'')"
  by (simp add: new_DiskLayer_def load_non_numeric del: load_existing_segments.simps)

section \<open>Compaction and the round trip at the largest timestamp\<close>

text \<open>
  \<^bold>\<open>C2\<close> does not hold of the code.  After two writes of a point of FB with timestamp 1
  the index holds the segments 0 and 1 of FB, and the two stored points have the same
  timestamp.  \<open>compact_segments("FB")\<close> does not return: \<open>optimize_segments\<close> holds the
  mutex exclusively when it calls \<open>read_segment\<close> for the first segment, and the shared
  lock there throws \<open>system_error\<close> where the library detects the deadlock and waits
  for ever where it does not.  Either way the index and the files are what they were:
  nothing is compacted, there are still two segments, and a read still gives two
  points with timestamp 1.
\<close>

theorem compact_segments_locks_owned_mutex:
  "map (\<lambda>(sy, segs). (sy, map fst segs)) (metadata duplicate_timestamp_disk) = [(''FB'', [0, 1])] \<and>
   map timestamp (stored_points simple_platform duplicate_timestamp_disk ''FB'') = [1, 1] \<and>
   DiskLayer_compact_segments simple_platform ''FB'' duplicate_timestamp_disk
     = (Inl (SystemError ''Resource deadlock avoided''), duplicate_timestamp_disk) \<and>
   DiskLayer_compact_segments blocking_platform ''FB'' duplicate_timestamp_disk
     = (Inl Deadlock, duplicate_timestamp_disk) \<and>
   map_sum id (map timestamp)
     (DiskLayer_read_range simple_platform
        (snd (DiskLayer_compact_segments simple_platform ''FB'' duplicate_timestamp_disk))
        ''FB'' 0 10) = Inr [1, 1]"
  unfolding duplicate_timestamp_disk_def by code_simp

text \<open>
  \<^bold>\<open>C1\<close> does not hold of the code.  A batch of one point whose timestamp is
  \<open>time_point::max()\<close> is written to the empty engine and flushed; both calls return
  \<open>true\<close> and the point is in a segment on disk, and the buffer is empty.  The read
  over the full range \<open>[MIN, MAX]\<close> returns nothing: \<open>range_query\<close> keeps a point
  only if \<open>timestamp < end\<close>.
\<close>

theorem full_range_read_drops_max_timestamp:
  "fst (StorageEngine_write_batch simple_platform
          [\<lparr>timestamp = time_point_max, val = 100, symbol = ''A''\<rparr>] empty_engine) = Inr True \<and>
   fst (StorageEngine_flush simple_platform
          (snd (StorageEngine_write_batch simple_platform
             [\<lparr>timestamp = time_point_max, val = 100, symbol = ''A''\<rparr>] empty_engine))) = Inr True \<and>
   files (disk_layer max_timestamp_engine)
     = [(''A_0.seg'',
         \<lparr>header = \<lparr>start_time = time_point_max, end_time = time_point_max, num_points = 1,
                     file_path = ''A_0.seg'', compressed = True\<rparr>,
          payload = Packed [(time_point_max, 100)]\<rparr>)] \<and>
   points_of (memory_layer max_timestamp_engine) ''A'' = [] \<and>
   StorageEngine_read_range simple_platform max_timestamp_engine ''A''
     time_point_min time_point_max = Inr []"
  unfolding max_timestamp_engine_def by code_simp

section \<open>Reading from the segment store\<close>

lemma disk_inv_segs:
  assumes "disk_inv P d" "map_of (metadata d) sy = Some segs"
  shows "distinct (map fst segs)"
    and "entry \<in> set segs \<Longrightarrow> segment_ok P d sy (snd entry)"
proof -
  have "(sy, segs) \<in> set (metadata d)" using assms(2) by (rule map_of_SomeD)
  then show "distinct (map fst segs)" "entry \<in> set segs \<Longrightarrow> segment_ok P d sy (snd entry)"
    using assms(1) by (auto simp: disk_inv_def)
qed

lemma read_segment_indexed:
  assumes "map_of (metadata d) sy = Some segs" "distinct (map fst segs)" "entry \<in> set segs"
    "map_of (files d) (file_path (snd entry)) \<noteq> None"
  shows "read_segment P OwnsShared d sy (fst entry) = Inr (segment_points P d sy (snd entry))"
proof -
  have "map_of segs (fst entry) = Some (snd entry)"
    using assms(2,3) by (cases entry) simp
  then show ?thesis using assms(1,4)
    by (auto simp: read_segment_def segment_points_def)
qed

lemma read_and_filter_indexed:
  assumes "map_of (metadata d) sy = Some segs" "distinct (map fst segs)"
    "set es \<subseteq> set segs" "\<forall>entry \<in> set es. map_of (files d) (file_path (snd entry)) \<noteq> None"
  shows "read_and_filter P d sy start end' (map fst es) acc =
         Inr (acc @ concat (map (\<lambda>entry. filter (\<lambda>p. start \<le> timestamp p \<and> timestamp p < end')
                                       (segment_points P d sy (snd entry))) es))"
  using assms(3,4)
proof (induction es arbitrary: acc)
  case Nil
  then show ?case by simp
next
  case (Cons a es)
  have "read_segment P OwnsShared d sy (fst a) = Inr (segment_points P d sy (snd a))"
    using Cons.prems by (intro read_segment_indexed[OF assms(1,2)]) auto
  then show ?case using Cons by simp
qed

lemma concat_map_filter_irrelevant:
  "(\<And>x. x \<in> set xs \<Longrightarrow> \<not> Q x \<Longrightarrow> f x = []) \<Longrightarrow>
   concat (map f (filter Q xs)) = concat (map f xs)"
  by (induction xs) auto

lemma std_sort_Nil: "is_std_sort srt \<Longrightarrow> srt [] = []"
  using is_std_sortD(1)[of srt "[]"] by simp

lemma range_query_result:
  assumes "disk_inv P d" "is_std_sort (std_sort P)"
  shows "range_query P d sy start end' =
         Inr (std_sort P (filter (\<lambda>p. start \<le> timestamp p \<and> timestamp p < end') (stored_points P d sy)))"
proof (cases "map_of (metadata d) sy")
  case None
  then show ?thesis
    using assms(2) by (simp add: range_query_def stored_points_def lookup_default_def std_sort_Nil)
next
  case (Some segs)
  let ?rel = "\<lambda>(segment_id, segment_info). start_time segment_info \<le> end' \<and> end_time segment_info \<ge> start"
  let ?f = "\<lambda>entry. filter (\<lambda>p. start \<le> timestamp p \<and> timestamp p < end') (segment_points P d sy (snd entry))"
  have ok: "\<And>entry. entry \<in> set segs \<Longrightarrow> segment_ok P d sy (snd entry)"
    using disk_inv_segs(2)[OF assms(1) Some] .
  have r: "read_and_filter P d sy start end' (map fst (filter ?rel segs)) [] =
        Inr ([] @ concat (map ?f (filter ?rel segs)))"
    using ok by (intro read_and_filter_indexed[OF Some disk_inv_segs(1)[OF assms(1) Some]])
      (auto simp: segment_ok_def)
  have "concat (map ?f (filter ?rel segs)) = concat (map ?f segs)"
  proof (rule concat_map_filter_irrelevant)
    fix x assume x: "x \<in> set segs" "\<not> ?rel x"
    show "?f x = []"
      using ok[OF x(1)] x(2) by (cases x) (auto simp: segment_ok_def filter_empty_conv)
  qed
  then show ?thesis
    using r Some by (simp add: range_query_def stored_points_def lookup_default_def filter_concat comp_def)
qed

lemma simple_platform_sort: "is_std_sort (std_sort simple_platform)"
  by (simp add: simple_platform_def stable_sort_is_std_sort)

text \<open>
  \<^bold>\<open>C6.\<close> On a segment store that satisfies \<open>disk_inv\<close>, for every symbol and every
  pair \<open>(start, end)\<close>, \<open>read_range\<close> returns normally, and what it returns is sorted by
  timestamp and is, as a multiset, exactly the stored points of the symbol with
  \<open>start \<le> timestamp < end\<close>: no point of a segment that the interval test
  \<open>start_time \<le> end \<and> end_time \<ge> start\<close> leaves out is in range.  For a symbol that is
  not in the index both sides are empty.
\<close>

theorem disk_read_range_exact:
  assumes "is_std_sort (std_sort P)" and "disk_inv P d"
  shows "\<exists>rs. DiskLayer_read_range P d sy start end' = Inr rs \<and>
           mset rs = mset (filter (\<lambda>p. start \<le> timestamp p \<and> timestamp p < end')
                              (stored_points P d sy)) \<and>
           sorted (map timestamp rs)"
  using assms(1) by (simp add: DiskLayer_read_range_def range_query_result[OF assms(2,1)] is_std_sortD)

theorem disk_read_range_exact_witness:
  "is_std_sort (std_sort simple_platform) \<and> disk_inv simple_platform example_disk \<and>
   DiskLayer_read_range simple_platform example_disk ''G'' 15 40
     = Inr [\<lparr>timestamp = 20, val = 2, symbol = ''G''\<rparr>, \<lparr>timestamp = 30, val = 3, symbol = ''G''\<rparr>] \<and>
   filter (\<lambda>p. 15 \<le> timestamp p \<and> timestamp p < 40) (stored_points simple_platform example_disk ''G'')
     = [\<lparr>timestamp = 30, val = 3, symbol = ''G''\<rparr>, \<lparr>timestamp = 20, val = 2, symbol = ''G''\<rparr>] \<and>
   stored_points simple_platform example_disk ''G''
     = [\<lparr>timestamp = 10, val = 1, symbol = ''G''\<rparr>, \<lparr>timestamp = 30, val = 3, symbol = ''G''\<rparr>,
        \<lparr>timestamp = 20, val = 2, symbol = ''G''\<rparr>, \<lparr>timestamp = 40, val = 4, symbol = ''G''\<rparr>]"
proof -
  have inv: "disk_inv simple_platform example_disk"
    unfolding example_disk_def by code_simp
  have r: "DiskLayer_read_range simple_platform example_disk ''G'' 15 40
     = Inr [\<lparr>timestamp = 20, val = 2, symbol = ''G''\<rparr>, \<lparr>timestamp = 30, val = 3, symbol = ''G''\<rparr>]"
    unfolding example_disk_def by code_simp
  have st: "stored_points simple_platform example_disk ''G''
     = [\<lparr>timestamp = 10, val = 1, symbol = ''G''\<rparr>, \<lparr>timestamp = 30, val = 3, symbol = ''G''\<rparr>,
        \<lparr>timestamp = 20, val = 2, symbol = ''G''\<rparr>, \<lparr>timestamp = 40, val = 4, symbol = ''G''\<rparr>]"
    unfolding example_disk_def by code_simp
  show ?thesis
    using simple_platform_sort inv r st
      disk_read_range_exact [OF simple_platform_sort inv, of "''G''" 15 40]
    by simp
qed

section \<open>File names of segments\<close>

text \<open>
  Two segments have the same file name only if they are segments of the same symbol
  with the same id: the decimal digits determine the number, and the last underscore of
  the name separates the symbol from the id.
\<close>

lemma digit_char_value: "n < 10 \<Longrightarrow> digit_value (digit_char n) = int n"
proof -
  assume "n < 10"
  then have "n \<in> {0,1,2,3,4,5,6,7,8,9}" by auto
  then show ?thesis by (auto simp: digit_value_def digit_char_def)
qed

lemma digit_char_not_underscore: "n < 10 \<Longrightarrow> digit_char n \<noteq> CHR ''_''"
proof -
  assume "n < 10"
  then have "n \<in> {0,1,2,3,4,5,6,7,8,9}" by auto
  then show ?thesis by (auto simp: digit_char_def)
qed

lemma to_string_value: "foldl (\<lambda>a c. 10 * a + digit_value c) 0 (to_string n) = int n"
proof (induction n rule: to_string.induct)
  case (1 n)
  show ?case
  proof (cases "n < 10")
    case True
    then show ?thesis by (subst to_string.simps) (simp add: digit_char_value)
  next
    case False
    then have "foldl (\<lambda>a c. 10 * a + digit_value c) 0 (to_string (n div 10)) = int (n div 10)"
      using 1 by simp
    then show ?thesis using False
      by (subst to_string.simps) (simp add: digit_char_value zdiv_int zmod_int)
  qed
qed

lemma to_string_inj:
  assumes "to_string a = to_string b"
  shows "a = b"
proof -
  have "int a = foldl (\<lambda>a c. 10 * a + digit_value c) 0 (to_string a)"
    by (rule to_string_value[symmetric])
  also have "\<dots> = foldl (\<lambda>a c. 10 * a + digit_value c) 0 (to_string b)"
    by (rule arg_cong[OF assms])
  also have "\<dots> = int b" by (rule to_string_value)
  finally show ?thesis by (rule int_int_eq[THEN iffD1])
qed

lemma to_string_unfold:
  "n < 10 \<Longrightarrow> to_string n = [digit_char n]"
  "\<not> n < 10 \<Longrightarrow> to_string n = to_string (n div 10) @ [digit_char (n mod 10)]"
  using to_string.simps[of n] by simp_all

lemma to_string_no_underscore: "CHR ''_'' \<notin> set (to_string n)"
proof (induction n rule: to_string.induct)
  case (1 n)
  show ?case
  proof (cases "n < 10")
    case True
    then show ?thesis
      using digit_char_not_underscore[of n] by (auto simp: to_string_unfold(1))
  next
    case False
    have "n mod 10 < 10" by simp
    then have "digit_char (n mod 10) \<noteq> CHR ''_''" by (rule digit_char_not_underscore)
    moreover have "CHR ''_'' \<notin> set (to_string (n div 10))" using 1 False by blast
    ultimately show ?thesis using False by (auto simp: to_string_unfold(2))
  qed
qed

lemma split_at_last:
  assumes "xs @ c # ys = xs' @ c # ys'" "c \<notin> set ys" "c \<notin> set ys'"
  shows "xs = xs' \<and> ys = ys'"
proof -
  have "rev ys @ c # rev xs = rev ys' @ c # rev xs'"
    using arg_cong[OF assms(1), of rev] by simp
  then have "takeWhile (\<lambda>x. x \<noteq> c) (rev ys @ c # rev xs) = takeWhile (\<lambda>x. x \<noteq> c) (rev ys' @ c # rev xs')"
    by (rule arg_cong)
  moreover have "takeWhile (\<lambda>x. x \<noteq> c) (rev ys @ c # rev xs) = rev ys"
    using assms(2) by (subst takeWhile_append2) auto
  moreover have "takeWhile (\<lambda>x. x \<noteq> c) (rev ys' @ c # rev xs') = rev ys'"
    using assms(3) by (subst takeWhile_append2) auto
  ultimately have "rev ys = rev ys'" by simp
  then have "ys = ys'" by simp
  then show ?thesis using assms(1) by simp
qed

lemma segment_file_name_inj:
  assumes "segment_file_name sy i = segment_file_name sy' i'"
  shows "sy = sy' \<and> i = i'"
proof -
  have "sy @ CHR ''_'' # (to_string i @ ''.seg'') = sy' @ CHR ''_'' # (to_string i' @ ''.seg'')"
    using assms by (simp add: segment_file_name_def)
  then have "sy = sy' \<and> to_string i @ ''.seg'' = to_string i' @ ''.seg''"
    by (rule split_at_last) (simp_all add: to_string_no_underscore)
  then show ?thesis using to_string_inj by auto
qed

section \<open>Invariants of the segment store\<close>

text \<open>
  \<open>write_segment\<close>, called by a thread that owns nothing of the mutex, keeps
  \<open>disk_inv\<close> and \<open>index_wf\<close> when it is given sorted points, whether it writes the
  file or throws; so does \<open>write_batch\<close>.  An empty index satisfies both, so they hold
  in every state that the operations reach from an empty data directory.
\<close>

lemma set_update_distinct:
  "distinct (map fst al) \<Longrightarrow> set (AList.update k v al) = insert (k, v) {e \<in> set al. fst e \<noteq> k}"
  by (induction al) (auto simp: rev_image_eqI)

lemma lookup_default_distinct:
  "distinct (map fst al) \<Longrightarrow> (k, v) \<in> set al \<Longrightarrow> lookup_default dflt al k = v"
  by (simp add: lookup_default_def)

lemma lookup_default_absent:
  "k \<notin> fst ` set al \<Longrightarrow> lookup_default dflt al k = dflt"
  by (simp add: lookup_default_def map_of_eq_None_iff[THEN iffD2])

lemma decode_encode:
  assumes "platform_ok P" "compressed info = c" "num_points info = length pts"
  shows "decode_points P sy info (encode_points P c pts) =
           (if c then map (\<lambda>p. p\<lparr>symbol := sy\<rparr>) pts else pts)"
  using assms by (auto simp: decode_points_def encode_points_def platform_ok_def comp_def)

lemma decode_encode_timestamps:
  assumes "platform_ok P" "compressed info = c" "num_points info = length pts"
  shows "map timestamp (decode_points P sy info (encode_points P c pts)) = map timestamp pts"
  by (simp add: decode_encode[OF assms] comp_def)

lemma sorted_bounds:
  assumes "sorted (map timestamp pts)" "p \<in> set pts"
  shows "timestamp (hd pts) \<le> timestamp p \<and> timestamp p \<le> timestamp (last pts)"
proof -
  have ne: "pts \<noteq> []" using assms(2) by auto
  have a: "timestamp (hd pts) \<le> timestamp p"
    using assms by (cases pts) auto
  have "sorted (map timestamp (butlast pts @ [last pts]))" using assms(1) ne by simp
  then have "\<forall>x \<in> set (butlast pts). timestamp x \<le> timestamp (last pts)"
    by (simp add: sorted_append)
  moreover have "p \<in> set (butlast pts) \<or> p = last pts"
    using assms(2) ne by (metis append_butlast_last_id in_set_conv_decomp_first rotate1.simps(2) set_ConsD set_rotate1)
  ultimately have "timestamp p \<le> timestamp (last pts)" by auto
  then show ?thesis using a by simp
qed

lemma segment_ok_files_cong:
  "map_of (files d') (file_path info) = map_of (files d) (file_path info) \<Longrightarrow>
   segment_ok P d' sy info = segment_ok P d sy info"
  by (simp add: segment_ok_def segment_points_def)

lemma segment_points_files_cong:
  "map_of (files d') (file_path info) = map_of (files d) (file_path info) \<Longrightarrow>
   segment_points P d' sy info = segment_points P d sy info"
  by (simp add: segment_points_def)

lemma write_segment_result:
  assumes "pts \<noteq> []" "can_create P (segment_file_name sy i)"
  shows "write_segment P Unowned sy pts i d =
    (Inr (),
     d\<lparr>files := AList.update (segment_file_name sy i)
          \<lparr>header = \<lparr>start_time = timestamp (hd pts), end_time = timestamp (last pts),
                      num_points = length pts, file_path = segment_file_name sy i,
                      compressed = enable_compression (cfg d)\<rparr>,
           payload = encode_points P (enable_compression (cfg d)) pts\<rparr> (files d),
       metadata := set_segment sy i
          \<lparr>start_time = timestamp (hd pts), end_time = timestamp (last pts),
           num_points = length pts, file_path = segment_file_name sy i,
           compressed = enable_compression (cfg d)\<rparr> (metadata d)\<rparr>)"
  using assms by (simp add: write_segment_def Let_def)

lemma write_segment_unchanged:
  assumes "pts = [] \<or> \<not> can_create P (segment_file_name sy i)"
  shows "snd (write_segment P Unowned sy pts i d) = d"
  using assms by (auto simp: write_segment_def Let_def)

lemma disk_inv_inner:
  assumes "disk_inv P d" "distinct (map fst (metadata d))"
  shows "distinct (map fst (lookup_default [] (metadata d) sy))"
    and "entry \<in> set (lookup_default [] (metadata d) sy) \<Longrightarrow> segment_ok P d sy (snd entry)"
proof -
  show "distinct (map fst (lookup_default [] (metadata d) sy))"
    using assms(1) disk_inv_segs(1)[OF assms(1)]
    by (cases "map_of (metadata d) sy") (auto simp: lookup_default_def)
  show "entry \<in> set (lookup_default [] (metadata d) sy) \<Longrightarrow> segment_ok P d sy (snd entry)"
    using disk_inv_segs(2)[OF assms(1)]
    by (cases "map_of (metadata d) sy") (auto simp: lookup_default_def)
qed

lemma disk_inv_entry:
  "disk_inv P d \<Longrightarrow> (s, segs) \<in> set (metadata d) \<Longrightarrow> entry \<in> set segs \<Longrightarrow>
   segment_ok P d s (snd entry)"
  unfolding disk_inv_def by force

lemma disk_inv_distinct:
  "disk_inv P d \<Longrightarrow> se \<in> set (metadata d) \<Longrightarrow> distinct (map fst (snd se))"
  unfolding disk_inv_def by blast

lemma index_wf_named:
  "index_wf P d \<Longrightarrow> (s, segs) \<in> set (metadata d) \<Longrightarrow> entry \<in> set segs \<Longrightarrow>
   file_path (snd entry) = segment_file_name s (fst entry)"
  unfolding index_wf_def by force

lemma index_wf_nonempty:
  "index_wf P d \<Longrightarrow> (s, segs) \<in> set (metadata d) \<Longrightarrow> entry \<in> set segs \<Longrightarrow>
   segment_points P d s (snd entry) \<noteq> []"
  unfolding index_wf_def by force

lemma index_wf_distinct: "index_wf P d \<Longrightarrow> distinct (map fst (metadata d))"
  unfolding index_wf_def by blast

lemma write_segment_inv:
  assumes "platform_ok P" "disk_inv P d" "index_wf P d" "sorted (map timestamp pts)"
  shows "disk_inv P (snd (write_segment P Unowned sy pts i d)) \<and> index_wf P (snd (write_segment P Unowned sy pts i d))"
proof (cases "pts = [] \<or> \<not> can_create P (segment_file_name sy i)")
  case True
  then show ?thesis using assms by (simp add: write_segment_unchanged)
next
  case False
  let ?path = "segment_file_name sy i"
  let ?info = "\<lparr>start_time = timestamp (hd pts), end_time = timestamp (last pts),
                 num_points = length pts, file_path = ?path,
                 compressed = enable_compression (cfg d)\<rparr>"
  let ?f = "\<lparr>header = ?info, payload = encode_points P (enable_compression (cfg d)) pts\<rparr>"
  let ?segs = "lookup_default [] (metadata d) sy"
  let ?d' = "d\<lparr>files := AList.update ?path ?f (files d),
               metadata := set_segment sy i ?info (metadata d)\<rparr>"
  have res: "snd (write_segment P Unowned sy pts i d) = ?d'"
    using False by (simp add: write_segment_result)
  have dist: "distinct (map fst (metadata d))" using assms(3) by (rule index_wf_distinct)
  have segs_dist: "distinct (map fst ?segs)" using disk_inv_inner(1)[OF assms(2) dist] .
  have md': "set (metadata ?d') =
      insert (sy, AList.update i ?info ?segs) {e \<in> set (metadata d). fst e \<noteq> sy}"
    using dist by (simp add: set_segment_def set_update_distinct)
  have segs': "set (AList.update i ?info ?segs) = insert (i, ?info) {e \<in> set ?segs. fst e \<noteq> i}"
    using segs_dist by (rule set_update_distinct)
  have named_old: "\<And>s segs entry. (s, segs) \<in> set (metadata d) \<Longrightarrow> entry \<in> set segs \<Longrightarrow>
      file_path (snd entry) = segment_file_name s (fst entry)"
    using assms(3) by (rule index_wf_named)
  have segs_in: "\<And>entry. entry \<in> set ?segs \<Longrightarrow> (sy, ?segs) \<in> set (metadata d)"
    by (cases "map_of (metadata d) sy") (auto simp: lookup_default_def dest: map_of_SomeD)
  have new_ok: "segment_ok P ?d' sy ?info"
  proof -
    have "segment_points P ?d' sy ?info =
            decode_points P sy ?info (encode_points P (enable_compression (cfg d)) pts)"
      by (simp add: segment_points_def update_conv')
    then have ts: "map timestamp (segment_points P ?d' sy ?info) = map timestamp pts"
      using decode_encode_timestamps[OF assms(1), of ?info "enable_compression (cfg d)" pts sy] by simp
    have "\<forall>t \<in> set (map timestamp pts). timestamp (hd pts) \<le> t \<and> t \<le> timestamp (last pts)"
      using sorted_bounds[OF assms(4)] by auto
    then have "\<forall>p \<in> set (segment_points P ?d' sy ?info).
        timestamp (hd pts) \<le> timestamp p \<and> timestamp p \<le> timestamp (last pts)"
      using ts by (metis (no_types, lifting) image_eqI list.set_map)
    then show ?thesis by (simp add: segment_ok_def update_conv')
  qed
  have new_ne: "segment_points P ?d' sy ?info \<noteq> []"
  proof -
    have "segment_points P ?d' sy ?info =
            decode_points P sy ?info (encode_points P (enable_compression (cfg d)) pts)"
      by (simp add: segment_points_def update_conv')
    then have "map timestamp (segment_points P ?d' sy ?info) = map timestamp pts"
      using decode_encode_timestamps[OF assms(1), of ?info "enable_compression (cfg d)" pts sy] by simp
    then show ?thesis using False by (metis map_is_Nil_conv)
  qed
  have old_ok: "segment_ok P ?d' s (snd entry) \<and> segment_points P ?d' s (snd entry) \<noteq> []"
    if "(s, segs) \<in> set (metadata d)" "entry \<in> set segs" "s \<noteq> sy \<or> fst entry \<noteq> i" for s segs entry
  proof -
    have p: "file_path (snd entry) = segment_file_name s (fst entry)" using named_old that(1,2) .
    have "segment_file_name s (fst entry) \<noteq> ?path"
      using that(3) segment_file_name_inj by blast
    then have "map_of (files ?d') (file_path (snd entry)) = map_of (files d) (file_path (snd entry))"
      using p by (simp add: update_conv')
    then have "segment_ok P ?d' s (snd entry) = segment_ok P d s (snd entry)"
      "segment_points P ?d' s (snd entry) = segment_points P d s (snd entry)"
      by (rule segment_ok_files_cong, rule segment_points_files_cong)
    moreover have "segment_ok P d s (snd entry)"
      using assms(2) that(1,2) by (rule disk_inv_entry)
    moreover have "segment_points P d s (snd entry) \<noteq> []"
      using assms(3) that(1,2) by (rule index_wf_nonempty)
    ultimately show ?thesis by simp
  qed
  have inv': "disk_inv P ?d'"
    unfolding disk_inv_def
  proof (intro ballI conjI)
    fix se assume se: "se \<in> set (metadata ?d')"
    show "distinct (map fst (snd se))"
    proof (cases "se = (sy, AList.update i ?info ?segs)")
      case True
      then show ?thesis using segs_dist by (simp add: distinct_update)
    next
      case False
      then have "se \<in> set (metadata d)" using se md' by auto
      then show ?thesis using assms(2) by (rule disk_inv_distinct[rotated])
    qed
    fix entry assume en: "entry \<in> set (snd se)"
    show "segment_ok P ?d' (fst se) (snd entry)"
    proof (cases "se = (sy, AList.update i ?info ?segs)")
      case True
      then have "entry = (i, ?info) \<or> (entry \<in> set ?segs \<and> fst entry \<noteq> i)"
        using en segs' by auto
      then show ?thesis
      proof
        assume "entry = (i, ?info)"
        then show ?thesis using new_ok True by simp
      next
        assume a: "entry \<in> set ?segs \<and> fst entry \<noteq> i"
        then have "(sy, ?segs) \<in> set (metadata d)" using segs_in by blast
        then show ?thesis using old_ok[of sy ?segs entry] a True by simp
      qed
    next
      case False
      then have in_old: "se \<in> set (metadata d)" "fst se \<noteq> sy" using se md' by auto
      then show ?thesis using old_ok[of "fst se" "snd se" entry] en by simp
    qed
  qed
  have wf1: "distinct (map fst (metadata ?d'))"
    using dist by (simp add: set_segment_def distinct_update)
  have wf2: "\<forall>se \<in> set (metadata ?d'). \<forall>entry \<in> set (snd se).
          file_path (snd entry) = segment_file_name (fst se) (fst entry) \<and>
          segment_points P ?d' (fst se) (snd entry) \<noteq> []"
  proof (intro ballI)
    fix se entry assume se: "se \<in> set (metadata ?d')" and en: "entry \<in> set (snd se)"
    show "file_path (snd entry) = segment_file_name (fst se) (fst entry) \<and>
          segment_points P ?d' (fst se) (snd entry) \<noteq> []"
    proof (cases "se = (sy, AList.update i ?info ?segs)")
      case True
      then have "entry = (i, ?info) \<or> (entry \<in> set ?segs \<and> fst entry \<noteq> i)"
        using en segs' by auto
      then show ?thesis
      proof
        assume "entry = (i, ?info)"
        then show ?thesis using True new_ne by simp
      next
        assume a: "entry \<in> set ?segs \<and> fst entry \<noteq> i"
        then have "(sy, ?segs) \<in> set (metadata d)" using segs_in by blast
        then show ?thesis
          using named_old[of sy ?segs entry] old_ok[of sy ?segs entry] a True by simp
      qed
    next
      case False
      then have "se \<in> set (metadata d)" "fst se \<noteq> sy" using se md' by auto
      then show ?thesis
        using named_old[of "fst se" "snd se" entry] old_ok[of "fst se" "snd se" entry] en by simp
    qed
  qed
  have wf': "index_wf P ?d'"
    unfolding index_wf_def using wf1 wf2 by (rule conjI)
  show ?thesis using inv' wf' by (simp only: res)
qed

lemma write_segment_store_inv:
  "platform_ok P \<Longrightarrow> store_inv P d \<Longrightarrow> sorted (map timestamp pts) \<Longrightarrow>
   store_inv P (snd (write_segment P Unowned sy pts i d))"
  using write_segment_inv[of P d pts sy i] by (simp add: store_inv_def)

lemma platform_ok_sort: "platform_ok P \<Longrightarrow> is_std_sort (std_sort P)"
  by (simp add: platform_ok_def)

lemma write_groups_inv:
  assumes "platform_ok P"
  shows "store_inv P d \<Longrightarrow> store_inv P (snd (write_groups P gs d))"
proof (induction gs arbitrary: d)
  case Nil
  then show ?case by simp
next
  case (Cons g gs)
  obtain sy pts where g: "g = (sy, pts)" by (cases g)
  let ?w = "write_segment P Unowned sy (std_sort P pts) (next_segment_id (metadata d) sy) d"
  have "store_inv P (snd ?w)"
    using assms Cons.prems
    by (intro write_segment_store_inv) (simp_all add: is_std_sortD platform_ok_sort)
  then show ?case
    using Cons.IH[of "snd ?w"] by (cases ?w) (auto simp: g split: sum.splits)
qed

lemma write_batch_inv:
  assumes "platform_ok P" "store_inv P d"
  shows "store_inv P (snd (DiskLayer_write_batch P pts d))"
  using write_groups_inv[OF assms, of "group_by_symbol pts"] assms(2)
  by (cases "write_groups P (group_by_symbol pts) d")
     (auto simp: DiskLayer_write_batch_def split: sum.splits)

lemma empty_index_store_inv: "metadata d = [] \<Longrightarrow> store_inv P d"
  by (simp add: store_inv_def disk_inv_def index_wf_def)

text \<open>
  \<open>optimize_segments\<close> and \<open>optimize_index\<close> own the mutex exclusively when they call
  \<open>read_segment\<close>, whose shared lock is then not granted.  For a symbol that has a
  segment the call ends at the first \<open>read_segment\<close>, before a file is removed or
  written; for a symbol without segments there is nothing to do.  So neither function
  changes the store, and the \<open>catch\<close> of \<open>optimize_index\<close> sees one \<open>system_error\<close> for
  each symbol that has a segment.
\<close>

lemma read_segment_owned: "read_segment P OwnsExclusive d sy segment_id = Inl (relock P)"
  by (simp add: read_segment_def lock_shared_def)

lemma collect_and_remove_owned:
  "collect_and_remove P sy segs all_points d =
     (if segs = [] then (Inr all_points, d) else (Inl (relock P), d))"
  by (cases segs) (auto simp: read_segment_owned)

lemma collect_all_owned:
  "collect_all P d sy segs all_points = (if segs = [] then Inr all_points else Inl (relock P))"
  by (cases segs) (auto simp: read_segment_owned)

lemma optimize_segments_owned:
  "optimize_segments P sy d =
     (case map_of (metadata d) sy of
        None \<Rightarrow> (Inr (), d)
      | Some segs \<Rightarrow> if segs = [] then (Inr (), d) else (Inl (relock P), d))"
  by (simp add: optimize_segments_def collect_and_remove_owned split: option.splits)

lemma optimize_symbol_owned:
  "optimize_symbol P sy d =
     (case map_of (metadata d) sy of
        None \<Rightarrow> (Inr (), d)
      | Some segs \<Rightarrow> if segs = [] then (Inr (), d) else (Inl (relock P), d))"
  by (simp add: optimize_symbol_def collect_all_owned split: option.splits)

lemma compact_segments_of_indexed_symbol:
  assumes "map_of (metadata d) sy = Some segs" "segs \<noteq> []"
  shows "DiskLayer_compact_segments P sy d = (Inl (relock P), d)"
  using assms by (simp add: DiskLayer_compact_segments_def optimize_segments_owned)

lemma compact_segments_unchanged: "snd (DiskLayer_compact_segments P sy d) = d"
  by (simp add: DiskLayer_compact_segments_def optimize_segments_owned split: option.splits)

lemma optimize_symbols_unchanged: "snd (optimize_symbols P syms d) = d"
  by (induction syms) (simp_all add: optimize_symbol_owned split: option.splits)

lemma optimize_index_unchanged: "snd (DiskLayer_optimize_index P d) = d"
  by (simp add: DiskLayer_optimize_index_def optimize_symbols_unchanged)

lemma optimize_symbols_detected:
  "detects_deadlock P \<Longrightarrow> optimize_symbols P syms d = (Inr (), d)"
  by (induction syms) (simp_all add: optimize_symbol_owned relock_def split: option.splits)

lemma optimize_index_detected:
  "detects_deadlock P \<Longrightarrow> DiskLayer_optimize_index P d = (Inr (), d)"
  by (simp add: DiskLayer_optimize_index_def optimize_symbols_detected)

lemma optimize_index_waits:
  assumes "\<not> detects_deadlock P" "metadata d = (sy, seg # segs) # rest"
  shows "DiskLayer_optimize_index P d = (Inl Deadlock, d)"
  using assms by (simp add: DiskLayer_optimize_index_def optimize_symbol_owned relock_def)

lemma compact_segments_inv:
  "store_inv P d \<Longrightarrow> store_inv P (snd (DiskLayer_compact_segments P sy d))"
  by (simp add: compact_segments_unchanged)

lemma optimize_index_inv:
  "store_inv P d \<Longrightarrow> store_inv P (snd (DiskLayer_optimize_index P d))"
  by (simp add: optimize_index_unchanged)

section \<open>The round trip through disk\<close>

lemma group_step_distinct: "distinct (map fst g) \<Longrightarrow> distinct (map fst (group_step p g))"
  by (simp add: group_step_def distinct_update)

lemma group_step_lookup:
  "lookup_default [] (group_step p g) s =
     (if s = symbol p then lookup_default [] g s @ [p] else lookup_default [] g s)"
  by (simp add: group_step_def lookup_default_def update_conv')

lemma group_step_keys: "fst ` set (group_step p g) = insert (symbol p) (fst ` set g)"
  by (simp add: group_step_def dom_update)

lemma fold_group_step:
  "distinct (map fst g) \<Longrightarrow>
   distinct (map fst (fold group_step ps g)) \<and>
   fst ` set (fold group_step ps g) = fst ` set g \<union> symbol ` set ps \<and>
   (\<forall>s. lookup_default [] (fold group_step ps g) s = lookup_default [] g s @ filter (\<lambda>p. symbol p = s) ps)"
proof (induction ps arbitrary: g)
  case Nil
  then show ?case by simp
next
  case (Cons p ps)
  have d: "distinct (map fst (group_step p g))" using Cons.prems by (rule group_step_distinct)
  show ?case
    using Cons.IH[OF d] by (auto simp: group_step_lookup group_step_keys)
qed

lemma group_by_symbol_fold: "group_by_symbol ps = fold group_step ps []"
  by (simp add: group_by_symbol_def)

lemma group_by_symbol_distinct: "distinct (map fst (group_by_symbol ps))"
  using fold_group_step[of "[]" ps] by (simp add: group_by_symbol_fold)

lemma group_by_symbol_keys: "fst ` set (group_by_symbol ps) = symbol ` set ps"
  using fold_group_step[of "[]" ps] by (simp add: group_by_symbol_fold)

lemma group_by_symbol_lookup:
  "lookup_default [] (group_by_symbol ps) s = filter (\<lambda>p. symbol p = s) ps"
  using fold_group_step[of "[]" ps] by (simp add: group_by_symbol_fold lookup_default_def)

lemma group_by_symbol_entry:
  assumes "(s, g) \<in> set (group_by_symbol ps)"
  shows "g = filter (\<lambda>p. symbol p = s) ps" and "g \<noteq> []"
proof -
  show g: "g = filter (\<lambda>p. symbol p = s) ps"
    using group_by_symbol_lookup[of ps s] lookup_default_distinct[OF group_by_symbol_distinct assms]
    by simp
  have "s \<in> symbol ` set ps" using assms group_by_symbol_keys[of ps] by force
  then show "g \<noteq> []" using g by (auto simp: filter_empty_conv)
qed

text \<open>A sort of a list with distinct keys has one possible result.\<close>

lemma strictly_increasing_distinct: "strictly_increasing xs \<Longrightarrow> distinct (map timestamp xs)"
  unfolding strictly_increasing_def by (simp add: strict_sorted_iff)

lemma std_sort_of_strictly_increasing:
  assumes "is_std_sort srt" "strictly_increasing xs"
  shows "srt xs = xs"
proof -
  have m: "mset (srt xs) = mset xs" and s: "sorted (map timestamp (srt xs))"
    using assms(1) by (simp_all add: is_std_sortD)
  have "mset (map timestamp (srt xs)) = mset (map timestamp xs)" using m by (metis mset_map)
  moreover have "sorted (map timestamp xs)" using assms(2) by (rule strictly_increasing_sorted)
  ultimately have ts: "map timestamp (srt xs) = map timestamp xs"
    using s by (metis properties_for_sort sorted_sort_id)
  have inj: "inj_on timestamp (set xs)"
    using strictly_increasing_distinct[OF assms(2)] by (simp add: distinct_map)
  have "set (srt xs) = set xs" using m by (rule mset_eq_setD)
  then have "inj_on timestamp (set (srt xs) \<union> set xs)" using inj by simp
  then show ?thesis by (rule map_inj_on[OF ts])
qed

lemma std_unique_of_strictly_increasing: "strictly_increasing xs \<Longrightarrow> std_unique xs = xs"
  unfolding strictly_increasing_def
  by (induction xs rule: std_unique.induct) auto

lemma get_symbols_get_or_create:
  "get_or_create_symbol_data sy m = (sd, m') \<Longrightarrow>
   MemoryLayer_get_symbols m' =
     (if sy \<in> set (MemoryLayer_get_symbols m) then MemoryLayer_get_symbols m
      else MemoryLayer_get_symbols m @ [sy])"
proof (cases "map_of (symbol_data m) sy")
  case None
  assume "get_or_create_symbol_data sy m = (sd, m')"
  then show ?thesis using None
    by (auto simp: get_or_create_symbol_data_def MemoryLayer_get_symbols_def map_of_eq_None_iff)
next
  case (Some x)
  assume "get_or_create_symbol_data sy m = (sd, m')"
  moreover have "sy \<in> fst ` set (symbol_data m)"
    using Some by (metis map_of_eq_None_iff option.distinct(1))
  ultimately show ?thesis using Some
    by (auto simp: get_or_create_symbol_data_def MemoryLayer_get_symbols_def)
qed

lemma get_symbols_store:
  "sy \<in> set (MemoryLayer_get_symbols m) \<Longrightarrow>
   MemoryLayer_get_symbols (store_symbol_data sy sd m) = MemoryLayer_get_symbols m"
  by (simp add: MemoryLayer_get_symbols_def store_symbol_data_def update_keys map_idI)

lemma get_symbols_total_update [simp]:
  "MemoryLayer_get_symbols (m\<lparr>ml_total_points := n\<rparr>) = MemoryLayer_get_symbols m"
  by (simp add: MemoryLayer_get_symbols_def)

lemma insert_group_points_of:
  "points_of (insert_group srt (s, g) m) s' =
     (if s' = s then std_unique (std_merge (points_of m s) (srt g)) else points_of m s')"
proof -
  obtain sd m' where gc: "get_or_create_symbol_data s m = (sd, m')"
    by (cases "get_or_create_symbol_data s m")
  show ?thesis
    using get_or_create_points[OF gc] get_or_create_points_of[OF gc, of s']
    by (simp add: insert_group_def gc Let_def points_of_store)
qed

lemma insert_group_symbols:
  "MemoryLayer_get_symbols (insert_group srt (s, g) m) =
     (if s \<in> set (MemoryLayer_get_symbols m) then MemoryLayer_get_symbols m
      else MemoryLayer_get_symbols m @ [s])"
proof -
  obtain sd m' where gc: "get_or_create_symbol_data s m = (sd, m')"
    by (cases "get_or_create_symbol_data s m")
  have "s \<in> set (MemoryLayer_get_symbols m')"
    using get_symbols_get_or_create[OF gc] by (auto split: if_splits)
  then show ?thesis
    using get_symbols_get_or_create[OF gc]
    by (simp add: insert_group_def gc Let_def get_symbols_store)
qed

lemma fold_insert_group_points_of:
  "distinct (map fst gs) \<Longrightarrow>
   points_of (fold (insert_group srt) gs m) s =
     (case map_of gs s of
        None \<Rightarrow> points_of m s
      | Some g \<Rightarrow> std_unique (std_merge (points_of m s) (srt g)))"
proof (induction gs arbitrary: m)
  case Nil
  then show ?case by simp
next
  case (Cons a gs)
  obtain s' g' where a: "a = (s', g')" by (cases a)
  have d: "distinct (map fst gs)" and n: "s' \<notin> fst ` set gs" using Cons.prems a by auto
  have none: "map_of gs s' = None" using n by (simp add: map_of_eq_None_iff)
  show ?case
    using Cons.IH[OF d, of "insert_group srt (s', g') m"] none
    by (auto simp: a insert_group_points_of split: option.splits)
qed

lemma fold_insert_group_symbols:
  "distinct (MemoryLayer_get_symbols m) \<Longrightarrow>
   distinct (MemoryLayer_get_symbols (fold (insert_group srt) gs m)) \<and>
   set (MemoryLayer_get_symbols (fold (insert_group srt) gs m)) =
     set (MemoryLayer_get_symbols m) \<union> fst ` set gs"
proof (induction gs arbitrary: m)
  case Nil
  then show ?case by simp
next
  case (Cons a gs)
  obtain s' g' where a: "a = (s', g')" by (cases a)
  have "distinct (MemoryLayer_get_symbols (insert_group srt (s', g') m))"
    using Cons.prems by (simp add: insert_group_symbols)
  then show ?case
    using Cons.IH[of "insert_group srt (s', g') m"]
    by (auto simp: a insert_group_symbols split: if_splits)
qed

lemma map_of_group_by_symbol:
  "map_of (group_by_symbol ps) s =
     (if s \<in> symbol ` set ps then Some (filter (\<lambda>p. symbol p = s) ps) else None)"
proof (cases "s \<in> symbol ` set ps")
  case True
  then obtain g where g: "(s, g) \<in> set (group_by_symbol ps)"
    using group_by_symbol_keys[of ps] by force
  then have "map_of (group_by_symbol ps) s = Some g"
    using group_by_symbol_distinct by simp
  then show ?thesis using True group_by_symbol_entry(1)[OF g] by simp
next
  case False
  then show ?thesis
    using group_by_symbol_keys[of ps] by (simp add: map_of_eq_None_iff)
qed

lemma insert_batch_points_of:
  assumes "is_std_sort srt"
  shows "points_of (snd (MemoryLayer_insert_batch srt ps m)) s =
     (if s \<in> symbol ` set ps
      then std_unique (std_merge (points_of m s) (srt (filter (\<lambda>p. symbol p = s) ps)))
      else points_of m s)"
proof (cases "ps = []")
  case True
  then show ?thesis by (simp add: MemoryLayer_insert_batch_def)
next
  case False
  then show ?thesis
    by (simp add: MemoryLayer_insert_batch_def
        fold_insert_group_points_of[OF group_by_symbol_distinct] map_of_group_by_symbol)
qed

lemma insert_batch_symbols:
  assumes "distinct (MemoryLayer_get_symbols m)"
  shows "distinct (MemoryLayer_get_symbols (snd (MemoryLayer_insert_batch srt ps m)))"
    and "set (MemoryLayer_get_symbols (snd (MemoryLayer_insert_batch srt ps m))) =
           set (MemoryLayer_get_symbols m) \<union> symbol ` set ps"
  using fold_insert_group_symbols[OF assms, of srt "group_by_symbol ps"] assms
  by (auto simp: MemoryLayer_insert_batch_def group_by_symbol_keys)

lemma insert_batch_fst: "fst (MemoryLayer_insert_batch srt ps m)"
  by (simp add: MemoryLayer_insert_batch_def)

lemma next_segment_id_fresh: "s \<notin> fst ` set md \<Longrightarrow> next_segment_id md s = 0"
  by (simp add: next_segment_id_def map_of_eq_None_iff[THEN iffD2])

lemma lookup_default_in_index:
  assumes "e \<in> set (lookup_default [] md s)"
  shows "(s, lookup_default [] md s) \<in> set md"
  using assms by (cases "map_of md s") (auto simp: lookup_default_def dest: map_of_SomeD)

lemma write_segment_fresh:
  assumes "platform_ok P" "store_inv P d" "s \<notin> fst ` set (metadata d)" "pts \<noteq> []"
    "can_create P (segment_file_name s 0)" "\<forall>p \<in> set pts. symbol p = s"
  shows "fst (write_segment P Unowned s pts 0 d) = Inr ()"
    and "stored_points P (snd (write_segment P Unowned s pts 0 d)) s = pts"
    and "s' \<noteq> s \<Longrightarrow> stored_points P (snd (write_segment P Unowned s pts 0 d)) s' = stored_points P d s'"
    and "fst ` set (metadata (snd (write_segment P Unowned s pts 0 d))) = insert s (fst ` set (metadata d))"
proof -
  let ?path = "segment_file_name s 0"
  let ?info = "\<lparr>start_time = timestamp (hd pts), end_time = timestamp (last pts),
                 num_points = length pts, file_path = ?path,
                 compressed = enable_compression (cfg d)\<rparr>"
  let ?f = "\<lparr>header = ?info, payload = encode_points P (enable_compression (cfg d)) pts\<rparr>"
  let ?d' = "d\<lparr>files := AList.update ?path ?f (files d),
               metadata := set_segment s 0 ?info (metadata d)\<rparr>"
  have res: "write_segment P Unowned s pts 0 d = (Inr (), ?d')"
    using assms(4,5) by (rule write_segment_result)
  have wf: "index_wf P d" using assms(2) by (simp add: store_inv_def)
  have absent: "lookup_default [] (metadata d) s = []"
    using assms(3) by (rule lookup_default_absent)
  have look: "lookup_default [] (set_segment s 0 ?info (metadata d)) x =
      (if x = s then [(0, ?info)] else lookup_default [] (metadata d) x)" for x
    unfolding set_segment_def absent by (simp add: lookup_default_def update_conv')
  show "fst (write_segment P Unowned s pts 0 d) = Inr ()" by (simp add: res)
  have "decode_points P s ?info (encode_points P (enable_compression (cfg d)) pts) =
          (if enable_compression (cfg d) then map (\<lambda>p. p\<lparr>symbol := s\<rparr>) pts else pts)"
    using assms(1) by (intro decode_encode) simp_all
  moreover have "map (\<lambda>p. p\<lparr>symbol := s\<rparr>) pts = pts"
    using assms(6) by (intro map_idI) simp
  ultimately have "segment_points P ?d' s ?info = pts"
    by (simp add: segment_points_def update_conv')
  then show "stored_points P (snd (write_segment P Unowned s pts 0 d)) s = pts"
    by (simp add: res stored_points_def look)
  show "fst ` set (metadata (snd (write_segment P Unowned s pts 0 d))) = insert s (fst ` set (metadata d))"
    by (simp add: res set_segment_def dom_update)
  show "stored_points P (snd (write_segment P Unowned s pts 0 d)) s' = stored_points P d s'" if "s' \<noteq> s"
  proof -
    have "segment_points P ?d' s' (snd e) = segment_points P d s' (snd e)"
      if e: "e \<in> set (lookup_default [] (metadata d) s')" for e
    proof -
      have "file_path (snd e) = segment_file_name s' (fst e)"
        using wf lookup_default_in_index[OF e] e by (rule index_wf_named)
      moreover have "segment_file_name s' (fst e) \<noteq> ?path"
        using \<open>s' \<noteq> s\<close> segment_file_name_inj by blast
      ultimately have "map_of (files ?d') (file_path (snd e)) = map_of (files d) (file_path (snd e))"
        by (simp add: update_conv')
      then show ?thesis by (rule segment_points_files_cong)
    qed
    then show ?thesis using that by (simp add: res stored_points_def look cong: map_cong)
  qed
qed

lemma write_groups_fresh:
  assumes "platform_ok P" "\<forall>path. can_create P path"
  shows "store_inv P d \<Longrightarrow> distinct (map fst gs) \<Longrightarrow> fst ` set gs \<inter> fst ` set (metadata d) = {} \<Longrightarrow>
    (\<forall>(s, g) \<in> set gs. g \<noteq> [] \<and> strictly_increasing g \<and> (\<forall>p \<in> set g. symbol p = s)) \<Longrightarrow>
    fst (write_groups P gs d) = Inr () \<and>
    (\<forall>s. stored_points P (snd (write_groups P gs d)) s =
          (case map_of gs s of None \<Rightarrow> stored_points P d s | Some g \<Rightarrow> g))"
proof (induction gs arbitrary: d)
  case Nil
  then show ?case by simp
next
  case (Cons a gs)
  obtain s g where a: "a = (s, g)" by (cases a)
  have g: "g \<noteq> []" "strictly_increasing g" "\<forall>p \<in> set g. symbol p = s"
    using Cons.prems(4) a by auto
  have fresh: "s \<notin> fst ` set (metadata d)" using Cons.prems(3) a by auto
  have srt: "std_sort P g = g"
    using assms(1) g(2) by (intro std_sort_of_strictly_increasing platform_ok_sort)
  let ?w = "write_segment P Unowned s g 0 d"
  have w: "fst ?w = Inr ()" "stored_points P (snd ?w) s = g"
    "\<And>s'. s' \<noteq> s \<Longrightarrow> stored_points P (snd ?w) s' = stored_points P d s'"
    "fst ` set (metadata (snd ?w)) = insert s (fst ` set (metadata d))"
    using write_segment_fresh[OF assms(1) Cons.prems(1) fresh g(1) _ g(3)] assms(2) by auto
  have inv': "store_inv P (snd ?w)"
    using assms(1) Cons.prems(1) g(2)
    by (intro write_segment_store_inv strictly_increasing_sorted)
  have d: "distinct (map fst gs)" and n: "s \<notin> fst ` set gs" using Cons.prems(2) a by auto
  have disj: "fst ` set gs \<inter> fst ` set (metadata (snd ?w)) = {}"
    using Cons.prems(3) n w(4) a by auto
  have rest: "\<forall>(s, g) \<in> set gs. g \<noteq> [] \<and> strictly_increasing g \<and> (\<forall>p \<in> set g. symbol p = s)"
    using Cons.prems(4) by simp
  have ih: "fst (write_groups P gs (snd ?w)) = Inr ()"
    "\<And>x. stored_points P (snd (write_groups P gs (snd ?w))) x =
          (case map_of gs x of None \<Rightarrow> stored_points P (snd ?w) x | Some g \<Rightarrow> g)"
    using Cons.IH[OF inv' d disj rest] by auto
  have step: "write_groups P (a # gs) d = write_groups P gs (snd ?w)"
    using w(1) by (cases ?w) (simp add: a srt next_segment_id_fresh[OF fresh])
  have none: "map_of gs s = None" using n by (simp add: map_of_eq_None_iff)
  show ?case
    unfolding step using ih w(2,3) none by (auto simp: a split: option.splits)
qed

lemma concat_map_single:
  "distinct xs \<Longrightarrow> s \<in> set xs \<Longrightarrow> concat (map (\<lambda>x. if x = s then b else []) xs) = b"
  by (induction xs) auto

lemma concat_map_none:
  "s \<notin> set xs \<Longrightarrow> concat (map (\<lambda>x. if x = s then b else []) xs) = []"
  by (induction xs) auto

lemma std_sort_set: "is_std_sort srt \<Longrightarrow> set (srt xs) = set xs"
  using is_std_sortD(1)[of srt xs] by (rule mset_eq_setD)

lemma std_unique_Nil_iff: "std_unique xs = [] \<longleftrightarrow> xs = []"
  by (induction xs rule: std_unique.induct) auto

lemma std_sort_Nil_iff: "is_std_sort srt \<Longrightarrow> srt xs = [] \<longleftrightarrow> xs = []"
  using is_std_sortD(1)[of srt xs] by (metis mset_zero_iff)

text \<open>The content of the buffer after a batch went into an empty buffer.\<close>

lemma batch_points:
  assumes "is_std_sort srt"
  shows "strictly_increasing (std_unique (srt (filter (\<lambda>p. symbol p = s) ps)))"
    and "set (std_unique (srt (filter (\<lambda>p. symbol p = s) ps))) \<subseteq> {p \<in> set ps. symbol p = s}"
    and "timestamp ` set (std_unique (srt (filter (\<lambda>p. symbol p = s) ps))) =
           timestamp ` {p \<in> set ps. symbol p = s}"
    and "std_unique (srt (filter (\<lambda>p. symbol p = s) ps)) = [] \<longleftrightarrow> s \<notin> symbol ` set ps"
proof -
  show "strictly_increasing (std_unique (srt (filter (\<lambda>p. symbol p = s) ps)))"
    using assms by (intro std_unique_strict is_std_sortD(2))
  show "set (std_unique (srt (filter (\<lambda>p. symbol p = s) ps))) \<subseteq> {p \<in> set ps. symbol p = s}"
    using set_std_unique_subset[of "srt (filter (\<lambda>p. symbol p = s) ps)"]
    by (simp add: std_sort_set[OF assms])
  show "timestamp ` set (std_unique (srt (filter (\<lambda>p. symbol p = s) ps))) =
           timestamp ` {p \<in> set ps. symbol p = s}"
    by (simp add: timestamps_std_unique std_sort_set[OF assms])
  show "std_unique (srt (filter (\<lambda>p. symbol p = s) ps)) = [] \<longleftrightarrow> s \<notin> symbol ` set ps"
    by (auto simp: std_unique_Nil_iff std_sort_Nil_iff[OF assms] filter_empty_conv)
qed

lemma insert_batch_into_empty:
  assumes "is_std_sort srt" "symbol_data m = []"
  shows "points_of (snd (MemoryLayer_insert_batch srt ps m)) s =
           std_unique (srt (filter (\<lambda>p. symbol p = s) ps))"
    and "distinct (MemoryLayer_get_symbols (snd (MemoryLayer_insert_batch srt ps m)))"
    and "set (MemoryLayer_get_symbols (snd (MemoryLayer_insert_batch srt ps m))) = symbol ` set ps"
proof -
  have e: "points_of m x = []" for x using assms(2) by (simp add: points_of_def)
  have sy: "MemoryLayer_get_symbols m = []" using assms(2) by (simp add: MemoryLayer_get_symbols_def)
  have "s \<notin> symbol ` set ps \<Longrightarrow> std_unique (srt (filter (\<lambda>p. symbol p = s) ps)) = []"
    using batch_points(4)[OF assms(1)] by simp
  then show "points_of (snd (MemoryLayer_insert_batch srt ps m)) s =
           std_unique (srt (filter (\<lambda>p. symbol p = s) ps))"
    by (auto simp: insert_batch_points_of[OF assms(1)] e)
  show "distinct (MemoryLayer_get_symbols (snd (MemoryLayer_insert_batch srt ps m)))"
    by (rule insert_batch_symbols(1)) (simp add: sy)
  show "set (MemoryLayer_get_symbols (snd (MemoryLayer_insert_batch srt ps m))) = symbol ` set ps"
    using insert_batch_symbols(2)[of m srt ps] by (simp add: sy)
qed

text \<open>
  Flushing a buffer whose symbols are distinct and whose sequences are strictly
  increasing, valid and of their symbol, into a store that knows none of the symbols.
\<close>

lemma flush_points_grouping:
  assumes "distinct syms"
    "\<And>x. x \<in> set syms \<Longrightarrow> \<forall>p \<in> set (B x). symbol p = x"
  shows "filter (\<lambda>p. symbol p = s) (concat (map B syms)) = (if s \<in> set syms then B s else [])"
proof -
  have "filter (\<lambda>p. symbol p = s) (concat (map B syms)) =
        concat (map (\<lambda>x. filter (\<lambda>p. symbol p = s) (B x)) syms)"
    by (simp add: filter_concat comp_def)
  also have "\<dots> = concat (map (\<lambda>x. if x = s then B s else []) syms)"
  proof (rule arg_cong[where f = concat], rule map_cong[OF refl])
    fix x assume x: "x \<in> set syms"
    show "filter (\<lambda>p. symbol p = s) (B x) = (if x = s then B s else [])"
      using assms(2)[OF x] by (auto simp: filter_empty_conv)
  qed
  also have "\<dots> = (if s \<in> set syms then B s else [])"
    using assms(1) by (simp add: concat_map_single concat_map_none)
  finally show ?thesis .
qed

lemma stored_points_empty_index: "metadata d = [] \<Longrightarrow> stored_points P d s = []"
  by (simp add: stored_points_def lookup_default_def)

lemma flush_buffer_to_fresh_store:
  assumes ok: "platform_ok P" and cr: "\<forall>path. can_create P path"
    and md: "metadata (disk_layer e) = []"
    and syms: "distinct (MemoryLayer_get_symbols (memory_layer e))"
    and val: "valid_memory (memory_layer e)"
    and m1: "M1 (memory_layer e)"
    and m2: "\<And>x. \<forall>p \<in> set (points_of (memory_layer e) x). symbol p = x"
  shows "fst (StorageEngine_flush P e) = Inr True \<and>
         buffer_empty (memory_layer (snd (StorageEngine_flush P e))) \<and>
         stored_points P (disk_layer (snd (StorageEngine_flush P e))) s = points_of (memory_layer e) s \<and>
         store_inv P (disk_layer (snd (StorageEngine_flush P e)))"
proof -
  let ?m = "memory_layer e"
  let ?F = "points_to_flush ?m"
  have F: "?F = concat (map (points_of ?m) (MemoryLayer_get_symbols ?m))"
    using val by (rule points_to_flush_valid)
  have inv0: "store_inv P (disk_layer e)" using md by (rule empty_index_store_inv)
  have grp: "filter (\<lambda>p. symbol p = x) ?F = points_of ?m x" for x
  proof -
    have "filter (\<lambda>p. symbol p = x) ?F =
          (if x \<in> set (MemoryLayer_get_symbols ?m) then points_of ?m x else [])"
      unfolding F using syms m2 by (rule flush_points_grouping)
    then show ?thesis by (simp add: points_of_unknown)
  qed
  show ?thesis
  proof (cases "?F = []")
    case True
    then have be: "buffer_empty ?m" using val by (simp add: points_to_flush_empty_iff)
    then have "points_of ?m s = []" by (rule buffer_empty_points_of)
    then show ?thesis
      using True be inv0 md by (simp add: StorageEngine_flush_def stored_points_empty_index)
  next
    case False
    let ?gs = "group_by_symbol ?F"
    have groups: "\<forall>(x, g) \<in> set ?gs. g \<noteq> [] \<and> strictly_increasing g \<and> (\<forall>p \<in> set g. symbol p = x)"
    proof (clarify)
      fix x g assume xg: "(x, g) \<in> set ?gs"
      have g: "g = points_of ?m x" using group_by_symbol_entry(1)[OF xg] grp by simp
      show "g \<noteq> [] \<and> strictly_increasing g \<and> (\<forall>p \<in> set g. symbol p = x)"
        using group_by_symbol_entry(2)[OF xg] M1_points_of[OF m1, of x] m2[of x] g by simp
    qed
    have w: "fst (write_groups P ?gs (disk_layer e)) = Inr ()"
      "\<And>x. stored_points P (snd (write_groups P ?gs (disk_layer e))) x =
          (case map_of ?gs x of None \<Rightarrow> stored_points P (disk_layer e) x | Some g \<Rightarrow> g)"
      using write_groups_fresh[OF ok cr inv0 group_by_symbol_distinct _ groups] md by auto
    have st: "stored_points P (snd (write_groups P ?gs (disk_layer e))) s = points_of ?m s"
    proof (cases "s \<in> symbol ` set ?F")
      case True
      then show ?thesis by (simp add: w(2) map_of_group_by_symbol grp)
    next
      case False
      then have "filter (\<lambda>p. symbol p = s) ?F = []" by (auto simp: filter_empty_conv)
      then have "points_of ?m s = []" using grp by simp
      then show ?thesis using False md
        by (simp add: w(2) map_of_group_by_symbol stored_points_empty_index)
    qed
    have wb: "DiskLayer_write_batch P ?F (disk_layer e) =
                (Inr True, snd (write_groups P ?gs (disk_layer e)))"
      using False w(1) by (cases "write_groups P ?gs (disk_layer e)")
        (auto simp: DiskLayer_write_batch_def)
    have fl: "StorageEngine_flush P e =
        (Inr True, e\<lparr>disk_layer := snd (write_groups P ?gs (disk_layer e)),
                     memory_layer := MemoryLayer_clear_cache ?m\<rparr>)"
      using False by (simp add: StorageEngine_flush_def wb)
    show ?thesis
      using write_groups_inv[OF ok inv0, of ?gs] by (simp add: fl clear_cache_empty st)
  qed
qed

lemma read_range_flushed:
  assumes ok: "platform_ok P" and be: "buffer_empty (memory_layer e)"
    and inv: "store_inv P (disk_layer e)"
    and inc: "strictly_increasing (stored_points P (disk_layer e) s)"
    and val: "\<forall>p \<in> set (stored_points P (disk_layer e) s). valid_point p"
  shows "StorageEngine_read_range P e s time_point_min time_point_max =
           Inr (filter (\<lambda>p. timestamp p < time_point_max) (stored_points P (disk_layer e) s))"
proof -
  let ?st = "stored_points P (disk_layer e) s"
  have srt: "is_std_sort (std_sort P)" using ok by (rule platform_ok_sort)
  have mem: "MemoryLayer_get_range (memory_layer e) s time_point_min time_point_max = []"
    using be by (intro get_range_empty_points buffer_empty_points_of)
  have "filter (\<lambda>p. time_point_min \<le> timestamp p \<and> timestamp p < time_point_max) ?st =
        filter (\<lambda>p. timestamp p < time_point_max) ?st"
    using val by (intro filter_cong refl) (auto simp: valid_point_def)
  moreover have "disk_inv P (disk_layer e)" using inv by (simp add: store_inv_def)
  ultimately have disk: "DiskLayer_read_range P (disk_layer e) s time_point_min time_point_max =
      Inr (std_sort P (filter (\<lambda>p. timestamp p < time_point_max) ?st))"
    using srt by (simp add: DiskLayer_read_range_def range_query_result)
  have "strictly_increasing (filter (\<lambda>p. timestamp p < time_point_max) ?st)"
    using inc by (simp add: strictly_increasing_def sorted_wrt_map sorted_wrt_filter)
  then have "std_sort P (filter (\<lambda>p. timestamp p < time_point_max) ?st) =
             filter (\<lambda>p. timestamp p < time_point_max) ?st"
    using srt by (intro std_sort_of_strictly_increasing)
  then show ?thesis by (simp add: StorageEngine_read_range_def mem disk)
qed

lemma no_symbols_M1: "symbol_data m = [] \<Longrightarrow> M1 m"
  by (simp add: M1_def)

lemma batch_written_memory:
  assumes srt: "is_std_sort srt" and mem0: "symbol_data m = []"
    and val: "\<forall>p \<in> set ps. valid_point p"
  shows "valid_memory (snd (MemoryLayer_insert_batch srt ps m))"
    and "M1 (snd (MemoryLayer_insert_batch srt ps m))"
    and "\<forall>p \<in> set (points_of (snd (MemoryLayer_insert_batch srt ps m)) x). symbol p = x"
    and "\<forall>p \<in> set (points_of (snd (MemoryLayer_insert_batch srt ps m)) x). valid_point p"
proof -
  let ?m1 = "snd (MemoryLayer_insert_batch srt ps m)"
  have pts: "points_of ?m1 y = std_unique (srt (filter (\<lambda>p. symbol p = y) ps))" for y
    using srt mem0 by (rule insert_batch_into_empty(1))
  have sub: "set (points_of ?m1 y) \<subseteq> {p \<in> set ps. symbol p = y}" for y
    unfolding pts using srt by (rule batch_points(2))
  show "\<forall>p \<in> set (points_of ?m1 x). symbol p = x" using sub[of x] by blast
  show v: "\<forall>p \<in> set (points_of ?m1 x). valid_point p" using sub[of x] val by blast
  have "\<forall>p \<in> set (points_of ?m1 y). valid_point p" for y using sub[of y] val by blast
  then show "valid_memory ?m1" unfolding valid_memory_def by blast
  show "M1 ?m1" using srt no_symbols_M1[OF mem0] by (rule insert_batch_M1)
qed

lemma flush_of_empty_buffer:
  "buffer_empty (memory_layer e) \<Longrightarrow> StorageEngine_flush P e = (Inr True, e)"
  by (simp add: StorageEngine_flush_def buffer_empty_points_to_flush)

lemma no_symbols_empty: "symbol_data m = [] \<Longrightarrow> buffer_empty m"
  by (simp add: buffer_empty_def MemoryLayer_get_symbols_def)

text \<open>The engine after a batch went into an empty engine and was flushed.\<close>

lemma flush_after_batch:
  assumes ok: "platform_ok P" and cr: "\<forall>path. can_create P path"
    and mem0: "symbol_data (memory_layer e0) = []"
    and md0: "metadata (disk_layer e0) = []"
    and val: "\<forall>p \<in> set ps. valid_point p"
    and e': "e' = e0\<lparr>memory_layer := snd (MemoryLayer_insert_batch (std_sort P) ps (memory_layer e0)),
                      total_points := n\<rparr>"
  shows "fst (StorageEngine_flush P e') = Inr True \<and>
         buffer_empty (memory_layer (snd (StorageEngine_flush P e'))) \<and>
         stored_points P (disk_layer (snd (StorageEngine_flush P e'))) s =
           std_unique (std_sort P (filter (\<lambda>p. symbol p = s) ps)) \<and>
         store_inv P (disk_layer (snd (StorageEngine_flush P e')))"
proof -
  have srt: "is_std_sort (std_sort P)" using ok by (rule platform_ok_sort)
  have m: "memory_layer e' = snd (MemoryLayer_insert_batch (std_sort P) ps (memory_layer e0))"
    and d: "disk_layer e' = disk_layer e0"
    by (simp_all add: e')
  have a1: "metadata (disk_layer e') = []" by (simp only: d md0)
  have a2: "distinct (MemoryLayer_get_symbols (memory_layer e'))"
    unfolding m using srt mem0 by (rule insert_batch_into_empty(2))
  have a3: "valid_memory (memory_layer e')"
    unfolding m using srt mem0 val by (rule batch_written_memory(1))
  have a4: "M1 (memory_layer e')"
    unfolding m using srt mem0 val by (rule batch_written_memory(2))
  have a5: "\<And>x. \<forall>p \<in> set (points_of (memory_layer e') x). symbol p = x"
    unfolding m using srt mem0 val by (rule batch_written_memory(3))
  have pts: "points_of (memory_layer e') s = std_unique (std_sort P (filter (\<lambda>p. symbol p = s) ps))"
    unfolding m using srt mem0 by (rule insert_batch_into_empty(1))
  show ?thesis
    using flush_buffer_to_fresh_store[OF ok cr a1 a2 a3 a4 a5, of s] by (simp only: pts)
qed

lemma insert_batch_fst_eq:
  "MemoryLayer_insert_batch srt ps m = (True, snd (MemoryLayer_insert_batch srt ps m))"
  by (simp add: MemoryLayer_insert_batch_def)

lemma write_batch_nonempty:
  assumes "ps \<noteq> []"
  shows "StorageEngine_write_batch P ps e0 =
     (if MemoryLayer_cache_size (snd (MemoryLayer_insert_batch (std_sort P) ps (memory_layer e0)))
           \<ge> max_memory_points (config e0)
      then StorageEngine_flush P
             (e0\<lparr>memory_layer := snd (MemoryLayer_insert_batch (std_sort P) ps (memory_layer e0)),
                 total_points := total_points e0 + of_nat (length ps)\<rparr>)
      else (Inr True,
            e0\<lparr>memory_layer := snd (MemoryLayer_insert_batch (std_sort P) ps (memory_layer e0)),
                total_points := total_points e0 + of_nat (length ps)\<rparr>))"
  using assms
  by (subst StorageEngine_write_batch_def, subst insert_batch_fst_eq) (simp add: Let_def)

text \<open>
  The round trip through disk, for every platform that is \<open>platform_ok\<close> and on which
  files can be created: a batch of points with 64-bit timestamps is written to an
  engine with an empty buffer and an empty index and flushed; both calls return \<open>true\<close>,
  and the read over the full range returns, for every symbol, the points of the batch
  with that symbol, sorted, one per timestamp, without those at \<open>time_point::max()\<close>.
\<close>

lemma round_trip_closed_form:
  assumes ok: "platform_ok P" and cr: "\<forall>path. can_create P path"
    and mem0: "symbol_data (memory_layer e0) = []"
    and md0: "metadata (disk_layer e0) = []"
    and val: "\<forall>p \<in> set ps. valid_point p"
  shows "fst (StorageEngine_write_batch P ps e0) = Inr True \<and>
         fst (StorageEngine_flush P (snd (StorageEngine_write_batch P ps e0))) = Inr True \<and>
         StorageEngine_read_range P
            (snd (StorageEngine_flush P (snd (StorageEngine_write_batch P ps e0))))
            s time_point_min time_point_max =
           Inr (filter (\<lambda>p. timestamp p < time_point_max)
                  (std_unique (std_sort P (filter (\<lambda>p. symbol p = s) ps))))"
proof -
  have srt: "is_std_sort (std_sort P)" using ok by (rule platform_ok_sort)
  let ?B = "std_unique (std_sort P (filter (\<lambda>p. symbol p = s) ps))"
  have B_valid: "\<forall>p \<in> set ?B. valid_point p"
    using batch_points(2)[OF srt, of s ps] val by blast
  have B_inc: "strictly_increasing ?B"
    using srt by (rule batch_points(1))
  have final: "StorageEngine_read_range P e2 s time_point_min time_point_max =
           Inr (filter (\<lambda>p. timestamp p < time_point_max) ?B)"
    if "buffer_empty (memory_layer e2)" "store_inv P (disk_layer e2)"
       "stored_points P (disk_layer e2) s = ?B" for e2
  proof -
    have "StorageEngine_read_range P e2 s time_point_min time_point_max =
          Inr (filter (\<lambda>p. timestamp p < time_point_max) (stored_points P (disk_layer e2) s))"
      using ok that(1,2)
    proof (rule read_range_flushed)
      show "strictly_increasing (stored_points P (disk_layer e2) s)" using B_inc by (simp only: that(3))
      show "\<forall>p\<in>set (stored_points P (disk_layer e2) s). valid_point p"
        using B_valid by (simp only: that(3))
    qed
    then show ?thesis by (simp only: that(3))
  qed
  show ?thesis
  proof (cases "ps = []")
    case True
    have wb: "StorageEngine_write_batch P ps e0 = (Inr True, e0)"
      using True by (simp add: StorageEngine_write_batch_def)
    have be: "buffer_empty (memory_layer e0)" using mem0 by (rule no_symbols_empty)
    have fl: "StorageEngine_flush P e0 = (Inr True, e0)"
      using be by (rule flush_of_empty_buffer)
    have "filter (\<lambda>p. symbol p = s) ps = []" using True by simp
    then have B: "?B = []" by (simp add: std_sort_Nil[OF srt])
    have "stored_points P (disk_layer e0) s = ?B"
      by (simp only: B stored_points_empty_index[OF md0])
    then have "StorageEngine_read_range P e0 s time_point_min time_point_max =
           Inr (filter (\<lambda>p. timestamp p < time_point_max) ?B)"
      using be empty_index_store_inv[OF md0] by (intro final)
    then show ?thesis
      by (simp only: wb fl fst_conv snd_conv simp_thms)
  next
    case False
    let ?e' = "e0\<lparr>memory_layer := snd (MemoryLayer_insert_batch (std_sort P) ps (memory_layer e0)),
                 total_points := total_points e0 + of_nat (length ps)\<rparr>"
    let ?e2 = "snd (StorageEngine_flush P ?e')"
    have fl': "fst (StorageEngine_flush P ?e') = Inr True"
      "buffer_empty (memory_layer ?e2)"
      "stored_points P (disk_layer ?e2) s = ?B"
      "store_inv P (disk_layer ?e2)"
      using flush_after_batch[OF ok cr mem0 md0 val refl, of "total_points e0 + of_nat (length ps)" s]
      by blast+
    have again: "StorageEngine_flush P ?e2 = (Inr True, ?e2)"
      using fl'(2) by (rule flush_of_empty_buffer)
    have rd: "StorageEngine_read_range P ?e2 s time_point_min time_point_max =
           Inr (filter (\<lambda>p. timestamp p < time_point_max) ?B)"
      using fl'(2,4,3) by (rule final)
    show ?thesis
    proof (cases "MemoryLayer_cache_size (snd (MemoryLayer_insert_batch (std_sort P) ps (memory_layer e0)))
           \<ge> max_memory_points (config e0)")
      case True
      have wb: "StorageEngine_write_batch P ps e0 = StorageEngine_flush P ?e'"
        using True by (simp only: write_batch_nonempty[OF False] if_True)
      show ?thesis
        unfolding wb using fl'(1) rd by (simp only: again fst_conv snd_conv simp_thms)
    next
      case F: False
      have wb: "StorageEngine_write_batch P ps e0 = (Inr True, ?e')"
        using F by (simp only: write_batch_nonempty[OF False] if_False)
      show ?thesis
        unfolding wb using fl'(1) rd by (simp only: fst_conv snd_conv simp_thms)
    qed
  qed
qed

section \<open>Invariants of the engine\<close>

text \<open>
  Every operation of the engine keeps \<open>engine_inv\<close>, whether it returns, throws or
  waits for ever, when the points it is given have 64-bit timestamps; an engine
  constructed over a data directory without regular files satisfies it.  So the hypotheses \<open>M1\<close>,
  \<open>valid_memory\<close> and \<open>disk_inv\<close> of the theorems above hold in every state such an engine
  reaches.
\<close>

lemma valid_memory_iff:
  "valid_memory m \<longleftrightarrow> (\<forall>sy. \<forall>p \<in> set (points_of m sy). valid_point p)"
proof
  assume "valid_memory m"
  then show "\<forall>sy. \<forall>p \<in> set (points_of m sy). valid_point p"
    using valid_memory_points_of by blast
next
  assume "\<forall>sy. \<forall>p \<in> set (points_of m sy). valid_point p"
  then show "valid_memory m" unfolding valid_memory_def by blast
qed

lemma insert_valid:
  assumes "M1 m" "valid_memory m" "valid_point p"
  shows "valid_memory (snd (MemoryLayer_insert p m))"
proof (cases "timestamp p \<in> timestamp ` set (points_of m (symbol p))")
  case True
  then show ?thesis using assms by (simp add: insert_duplicate)
next
  case False
  have "\<forall>q \<in> set (points_of (snd (MemoryLayer_insert p m)) sy). valid_point q" for sy
  proof (cases "sy = symbol p")
    case True
    have "set (points_of (snd (MemoryLayer_insert p m)) (symbol p)) \<subseteq> insert p (set (points_of m (symbol p)))"
      unfolding insert_fresh(2)[OF assms(1) False]
      using set_take_subset set_drop_subset by fastforce
    then show ?thesis using True assms(2,3) valid_memory_points_of by blast
  next
    case F: False
    then show ?thesis
      using insert_fresh(3)[OF assms(1) False F] assms(2) valid_memory_points_of by auto
  qed
  then show ?thesis by (simp add: valid_memory_iff)
qed

lemma insert_batch_valid:
  assumes "is_std_sort srt" "valid_memory m" "\<forall>p \<in> set ps. valid_point p"
  shows "valid_memory (snd (MemoryLayer_insert_batch srt ps m))"
proof -
  have "\<forall>q \<in> set (points_of (snd (MemoryLayer_insert_batch srt ps m)) sy). valid_point q" for sy
  proof (cases "sy \<in> symbol ` set ps")
    case True
    have "set (std_unique (std_merge (points_of m sy) (srt (filter (\<lambda>p. symbol p = sy) ps))))
          \<subseteq> set (points_of m sy) \<union> set ps"
      using set_std_unique_subset[of "std_merge (points_of m sy) (srt (filter (\<lambda>p. symbol p = sy) ps))"]
      by (auto simp: set_std_merge std_sort_set[OF assms(1)])
    then show ?thesis
      using True assms(2,3) valid_memory_points_of
      by (simp add: insert_batch_points_of[OF assms(1)]) blast
  next
    case False
    then show ?thesis
      using assms(2) valid_memory_points_of by (simp add: insert_batch_points_of[OF assms(1)])
  qed
  then show ?thesis by (simp add: valid_memory_iff)
qed

lemma clear_cache_valid: "valid_memory (MemoryLayer_clear_cache m)"
  by (simp add: valid_memory_iff points_of_clear_cache)

lemma flush_engine_inv:
  assumes "platform_ok P" "engine_inv P e"
  shows "engine_inv P (snd (StorageEngine_flush P e))"
proof (cases "points_to_flush (memory_layer e) = []")
  case True
  then show ?thesis using assms(2) by (simp add: StorageEngine_flush_def)
next
  case False
  obtain r d' where w: "DiskLayer_write_batch P (points_to_flush (memory_layer e)) (disk_layer e) = (r, d')"
    by (cases "DiskLayer_write_batch P (points_to_flush (memory_layer e)) (disk_layer e)")
  have "store_inv P (disk_layer e)" using assms(2) by (simp add: engine_inv_def)
  then have d': "store_inv P d'"
    using write_batch_inv[OF assms(1), of "disk_layer e" "points_to_flush (memory_layer e)"] w by simp
  show ?thesis
    using False w d' assms(2)
    by (cases r) (auto simp: StorageEngine_flush_def engine_inv_def clear_cache_M1 clear_cache_valid)
qed

lemma write_point_engine_inv:
  assumes "platform_ok P" "engine_inv P e" "valid_point p"
  shows "engine_inv P (snd (StorageEngine_write_point P p e))"
proof -
  obtain b m where i: "MemoryLayer_insert p (memory_layer e) = (b, m)"
    by (cases "MemoryLayer_insert p (memory_layer e)")
  have m: "M1 m" "valid_memory m"
    using insert_M1[of "memory_layer e" p] insert_valid[of "memory_layer e" p] assms(2,3) i
    by (simp_all add: engine_inv_def)
  have a: "engine_inv P (e\<lparr>memory_layer := m\<rparr>)"
    using m assms(2) by (simp add: engine_inv_def)
  have b: "engine_inv P (e\<lparr>memory_layer := m, total_points := total_points e + 1\<rparr>)"
    using m assms(2) by (simp add: engine_inv_def)
  show ?thesis
    using a b flush_engine_inv[OF assms(1) b]
    by (cases b) (simp_all add: StorageEngine_write_point_def i Let_def)
qed

lemma write_batch_engine_inv:
  assumes "platform_ok P" "engine_inv P e" "\<forall>p \<in> set ps. valid_point p"
  shows "engine_inv P (snd (StorageEngine_write_batch P ps e))"
proof (cases "ps = []")
  case True
  then show ?thesis using assms(2) by (simp add: StorageEngine_write_batch_def)
next
  case False
  let ?m = "snd (MemoryLayer_insert_batch (std_sort P) ps (memory_layer e))"
  have srt: "is_std_sort (std_sort P)" using assms(1) by (rule platform_ok_sort)
  have m: "M1 ?m" "valid_memory ?m"
    using insert_batch_M1[OF srt, of "memory_layer e" ps] insert_batch_valid[OF srt, of "memory_layer e" ps]
      assms(2,3) by (simp_all add: engine_inv_def)
  have b: "engine_inv P (e\<lparr>memory_layer := ?m, total_points := total_points e + of_nat (length ps)\<rparr>)"
    using m assms(2) by (simp add: engine_inv_def)
  show ?thesis
    using b flush_engine_inv[OF assms(1) b]
    by (simp add: write_batch_nonempty[OF False])
qed

lemma optimize_engine_inv:
  assumes "platform_ok P" "engine_inv P e"
  shows "engine_inv P (snd (StorageEngine_optimize P e))"
proof -
  obtain r e' where f: "StorageEngine_flush P e = (r, e')" by (cases "StorageEngine_flush P e")
  have e': "engine_inv P e'" using flush_engine_inv[OF assms] f by simp
  obtain r' d' where o: "DiskLayer_optimize_index P (disk_layer e') = (r', d')"
    by (cases "DiskLayer_optimize_index P (disk_layer e')")
  have "d' = disk_layer e'" using optimize_index_unchanged[of P "disk_layer e'"] o by simp
  then have "engine_inv P (e'\<lparr>disk_layer := d'\<rparr>)" using e' by (simp add: engine_inv_def)
  then show ?thesis using e' f o by (cases r) (simp_all add: StorageEngine_optimize_def)
qed

lemma apply_engine_op_inv:
  assumes "platform_ok P" "engine_inv P e" "\<forall>p \<in> set (op_points opr). valid_point p"
  shows "engine_inv P (apply_engine_op P opr e)"
  using assms
  by (cases opr)
     (simp_all add: write_point_engine_inv write_batch_engine_inv flush_engine_inv optimize_engine_inv)

lemma run_engine_inv:
  assumes "platform_ok P"
  shows "engine_inv P e \<Longrightarrow> \<forall>opr \<in> set ops. \<forall>p \<in> set (op_points opr). valid_point p \<Longrightarrow>
         engine_inv P (run_engine P ops e)"
proof (induction ops arbitrary: e)
  case Nil
  then show ?case by simp
next
  case (Cons a ops)
  have "engine_inv P (apply_engine_op P a e)"
    using assms Cons.prems by (intro apply_engine_op_inv) simp_all
  then show ?case using Cons by simp
qed

lemma new_engine_inv:
  assumes "new_StorageEngine P c [] others = Inr e0"
  shows "engine_inv P e0"
proof -
  have "load_existing_segments P (map (\<lambda>name. (name, None)) others) md = Inr md" for md
    by (induction others) simp_all
  then have "new_DiskLayer P default_DiskConfig [] others =
               Inr \<lparr>metadata = [], cfg = default_DiskConfig, files = []\<rparr>"
    by (simp add: new_DiskLayer_def)
  then have "memory_layer e0 = new_MemoryLayer (memory_cache_size_mb c)" "metadata (disk_layer e0) = []"
    using assms by (auto simp: new_StorageEngine_def)
  then show ?thesis
    by (simp add: engine_inv_def empty_index_store_inv valid_memory_def M1_def
        new_MemoryLayer_def MemoryLayer_get_symbols_def)
qed

lemma reachable_engine_inv:
  assumes "platform_ok P" "new_StorageEngine P c [] others = Inr e0"
    "\<forall>opr \<in> set ops. \<forall>p \<in> set (op_points opr). valid_point p"
  shows "M1 (memory_layer (run_engine P ops e0))"
    and "valid_memory (memory_layer (run_engine P ops e0))"
    and "disk_inv P (disk_layer (run_engine P ops e0))"
  using run_engine_inv[OF assms(1) new_engine_inv[OF assms(2)] assms(3)]
  by (simp_all add: engine_inv_def store_inv_def)

text \<open>
  The hypotheses of the round trip are met by \<open>simple_platform\<close> and the empty engine;
  there the read returns the two points of symbol A, sorted, and neither the second
  point with timestamp 3 nor the point of symbol B.
\<close>

lemma simple_platform_ok: "platform_ok simple_platform"
proof -
  have "decompress_time_series simple_platform (compress_time_series simple_platform tps) = tps"
    for tps
    by (simp add: simple_platform_def)
  moreover have "reinterpret_points simple_platform (memcpy_points simple_platform ps) (length ps) = ps"
    for ps
    by (simp add: simple_platform_def)
  ultimately show ?thesis
    using simple_platform_sort unfolding platform_ok_def by blast
qed

lemma round_trip_example:
  "StorageEngine_read_range simple_platform
     (snd (StorageEngine_flush simple_platform
        (snd (StorageEngine_write_batch simple_platform
           [\<lparr>timestamp = 3, val = 30, symbol = ''A''\<rparr>, \<lparr>timestamp = 1, val = 10, symbol = ''A''\<rparr>,
            \<lparr>timestamp = 2, val = 20, symbol = ''B''\<rparr>, \<lparr>timestamp = 3, val = 31, symbol = ''A''\<rparr>]
           empty_engine))))
     ''A'' time_point_min time_point_max
   = Inr [\<lparr>timestamp = 1, val = 10, symbol = ''A''\<rparr>, \<lparr>timestamp = 3, val = 30, symbol = ''A''\<rparr>]"
proof -
  have cr: "\<forall>path. can_create simple_platform path"
    by (simp add: simple_platform_def)
  have mem0: "symbol_data (memory_layer empty_engine) = []"
    by (simp add: empty_engine_def new_MemoryLayer_def)
  have md0: "metadata (disk_layer empty_engine) = []"
    by (simp add: empty_engine_def empty_DiskLayer_def)
  have val: "\<forall>p \<in> set [\<lparr>timestamp = 3, val = 30, symbol = ''A''\<rparr>, \<lparr>timestamp = 1, val = 10, symbol = ''A''\<rparr>,
            \<lparr>timestamp = 2, val = 20, symbol = ''B''\<rparr>, \<lparr>timestamp = 3, val = 31, symbol = ''A''\<rparr>].
          valid_point p"
    by (simp add: valid_point_def time_point_min_def time_point_max_def)
  have "filter (\<lambda>p. timestamp p < time_point_max)
          (std_unique (std_sort simple_platform (filter (\<lambda>p. symbol p = ''A'')
             [\<lparr>timestamp = 3, val = 30, symbol = ''A''\<rparr>, \<lparr>timestamp = 1, val = 10, symbol = ''A''\<rparr>,
              \<lparr>timestamp = 2, val = 20, symbol = ''B''\<rparr>, \<lparr>timestamp = 3, val = 31, symbol = ''A''\<rparr>])))
        = [\<lparr>timestamp = 1, val = 10, symbol = ''A''\<rparr>, \<lparr>timestamp = 3, val = 30, symbol = ''A''\<rparr>]"
    by code_simp
  then show ?thesis
    using round_trip_closed_form [OF simple_platform_ok cr mem0 md0 val, of "''A''"] by simp
qed

end
